theory Spec2Isabelle
  imports Main
begin

section \<open>Python values\<close>

text \<open>
  Everything the program handles comes out of \<^verbatim>\<open>response.json()\<close>: null, booleans,
  integers, floats, strings, lists and dictionaries with string keys. Python's
  \<^verbatim>\<open>isinstance\<close> chains become a case distinction over this datatype; \<^verbatim>\<open>bool\<close>
  is a separate constructor, as the source tests it before \<^verbatim>\<open>int\<close>.

  A dictionary is an association list in insertion order (Python dictionaries keep that
  order). Python floats are kept abstract as the type variable \<open>'f\<close>; what the
  interpreter does with them is a field of \<open>builtins\<close>.

  A Python string is given by its UTF-8 bytes, so an ASCII string is itself and \<open>ascii\<close>
  tells whether a string is one. Comparing, concatenating, searching for an ASCII
  character and splitting at one work on the bytes as they do on the code points. What
  depends on the Unicode tables (\<^verbatim>\<open>lower\<close>, \<^verbatim>\<open>strip\<close>, \<^verbatim>\<open>int\<close>, and running over the
  characters of a string) is written out for ASCII strings and is the interpreter's, a
  field of \<open>builtins\<close>, for every other string.
\<close>

datatype 'f json =
    JNull
  | JBool bool
  | JInt int
  | JFloat 'f
  | JStr string
  | JList "'f json list"
  | JDict "(string \<times> 'f json) list"

type_synonym 'f dict = "(string \<times> 'f json) list"

datatype pyerror = AttributeError | TypeError | ValueError | KeyError | APIError

text \<open>
  The interpreter's part that is not written out here: \<^verbatim>\<open>float(s)\<close> (\<open>None\<close> when it
  raises ValueError), \<^verbatim>\<open>str(x)\<close> and \<^verbatim>\<open>bool(x)\<close> of a float, \<^verbatim>\<open>str(v)\<close> of a list
  or a dictionary, the limit \<^verbatim>\<open>sys.get_int_max_str_digits()\<close> of \<^verbatim>\<open>int(s)\<close>
  (0 switches it off; the interpreter looks at it for more than 640 digits only), and, for
  a string that is not ASCII, \<^verbatim>\<open>s.lower()\<close>, \<^verbatim>\<open>s.strip()\<close>, \<^verbatim>\<open>int(s)\<close> (\<open>None\<close> when
  it raises ValueError) and the list of its characters.
\<close>

record 'f builtins =
  float_of_str :: "string \<Rightarrow> 'f option"
  str_of_float :: "'f \<Rightarrow> string"
  float_nonzero :: "'f \<Rightarrow> bool"
  repr_of :: "'f json \<Rightarrow> string"
  int_max_str_digits :: nat
  str_lower :: "string \<Rightarrow> string"
  str_strip :: "string \<Rightarrow> string"
  int_of_str :: "string \<Rightarrow> int option"
  str_chars :: "string \<Rightarrow> string list"

subsection \<open>Dictionaries\<close>

definition dict_has :: "('k \<times> 'v) list \<Rightarrow> 'k \<Rightarrow> bool" where
  \<comment> \<open>\<^verbatim>\<open>k in d\<close>\<close>
  "dict_has d k = (map_of d k \<noteq> None)"

definition dict_get :: "('k \<times> 'v) list \<Rightarrow> 'k \<Rightarrow> 'v \<Rightarrow> 'v" where
  \<comment> \<open>\<^verbatim>\<open>d.get(k, default)\<close>\<close>
  "dict_get d k dflt = (case map_of d k of None \<Rightarrow> dflt | Some v \<Rightarrow> v)"

fun dict_set :: "('k \<times> 'v) list \<Rightarrow> 'k \<Rightarrow> 'v \<Rightarrow> ('k \<times> 'v) list" where
  \<comment> \<open>\<^verbatim>\<open>d[k] = v\<close>: an existing key keeps its place, a new key goes last\<close>
  "dict_set [] k v = [(k, v)]"
| "dict_set ((k', v') # d) k v = (if k' = k then (k, v) # d else (k', v') # dict_set d k v)"

subsection \<open>Strings\<close>

definition ascii :: "string \<Rightarrow> bool" where
  "ascii s = list_all (\<lambda>c. (of_char c :: nat) < 128) s"

definition lower_char :: "char \<Rightarrow> char" where
  "lower_char c =
     (let n = (of_char c :: nat) in if 65 \<le> n \<and> n \<le> 90 then char_of (n + 32) else c)"

definition lower :: "'f builtins \<Rightarrow> string \<Rightarrow> string" where
  \<comment> \<open>\<^verbatim>\<open>s.lower()\<close>: on an ASCII string the letters A to Z are folded\<close>
  "lower env s = (if ascii s then map lower_char s else str_lower env s)"

definition startswith_dollar :: "string \<Rightarrow> bool" where
  \<comment> \<open>\<^verbatim>\<open>s.startswith('$')\<close>\<close>
  "startswith_dollar s = (case s of [] \<Rightarrow> False | c # _ \<Rightarrow> c = CHR ''$'')"

definition lstrip_dollar :: "string \<Rightarrow> string" where
  \<comment> \<open>\<^verbatim>\<open>s.lstrip('$')\<close>: every leading \<^verbatim>\<open>$\<close> goes\<close>
  "lstrip_dollar s = dropWhile (\<lambda>c. c = CHR ''$'') s"

fun join :: "string \<Rightarrow> string list \<Rightarrow> string" where
  \<comment> \<open>\<^verbatim>\<open>sep.join(xs)\<close> on a list of strings\<close>
  "join sep [] = []"
| "join sep [x] = x"
| "join sep (x # y # ys) = x @ sep @ join sep (y # ys)"

definition is_digit :: "char \<Rightarrow> bool" where
  "is_digit c = (let n = (of_char c :: nat) in 48 \<le> n \<and> n \<le> 57)"

definition digit_val :: "char \<Rightarrow> nat" where
  "digit_val c = (of_char c :: nat) - 48"

definition digit_char :: "nat \<Rightarrow> char" where
  "digit_char n = char_of (48 + n)"

definition is_space :: "char \<Rightarrow> bool" where
  \<comment> \<open>the ASCII characters that \<^verbatim>\<open>str.isspace\<close> accepts: blank, tab to carriage return,
      and the four separators 28 to 31\<close>
  "is_space c =
     (let n = (of_char c :: nat) in n = 32 \<or> (9 \<le> n \<and> n \<le> 13) \<or> (28 \<le> n \<and> n \<le> 31))"

definition strip :: "'f builtins \<Rightarrow> string \<Rightarrow> string" where
  \<comment> \<open>\<^verbatim>\<open>s.strip()\<close>\<close>
  "strip env s =
     (if ascii s then rev (dropWhile is_space (rev (dropWhile is_space s)))
      else str_strip env s)"

definition is_blank :: "char \<Rightarrow> bool" where
  \<comment> \<open>what \<^verbatim>\<open>int\<close> skips around an ASCII literal: blank and tab to carriage return, not
      the separators 28 to 31\<close>
  "is_blank c = (let n = (of_char c :: nat) in n = 32 \<or> (9 \<le> n \<and> n \<le> 13))"

definition trim :: "string \<Rightarrow> string" where
  "trim s = rev (dropWhile is_blank (rev (dropWhile is_blank s)))"

fun str_nat :: "nat \<Rightarrow> string" where
  "str_nat n = (if n < 10 then [digit_char n] else str_nat (n div 10) @ [digit_char (n mod 10)])"

declare str_nat.simps [simp del]

definition str_int :: "int \<Rightarrow> string" where
  \<comment> \<open>\<^verbatim>\<open>str(i)\<close> of an integer\<close>
  "str_int i = (if i < 0 then CHR ''-'' # str_nat (nat (- i)) else str_nat (nat i))"

fun int_digits :: "string \<Rightarrow> nat \<Rightarrow> nat option" where
  \<comment> \<open>the rest of a decimal literal after a digit; one underscore may stand between two digits\<close>
  "int_digits [] acc = Some acc"
| "int_digits (c # cs) acc =
     (if is_digit c then int_digits cs (10 * acc + digit_val c)
      else if c = CHR ''_'' then
        (case cs of
           [] \<Rightarrow> None
         | d # ds \<Rightarrow> if is_digit d then int_digits ds (10 * acc + digit_val d) else None)
      else None)"

definition int_ascii :: "'f builtins \<Rightarrow> string \<Rightarrow> int option" where
  \<comment> \<open>\<^verbatim>\<open>int(s)\<close> of an ASCII string, base 10: blanks around, one sign, digits\<close>
  "int_ascii env s =
     (let t = trim s;
          neg = (case t of [] \<Rightarrow> False | c # _ \<Rightarrow> c = CHR ''-'');
          body = (case t of [] \<Rightarrow> [] | c # r \<Rightarrow> if c = CHR ''-'' \<or> c = CHR ''+'' then r else t)
      in case body of
           [] \<Rightarrow> None
         | c # cs \<Rightarrow>
             if \<not> is_digit c then None
             else if 640 < length (filter is_digit body) \<and> 0 < int_max_str_digits env
                     \<and> int_max_str_digits env < length (filter is_digit body) then None
             else (case int_digits cs (digit_val c) of
                     None \<Rightarrow> None
                   | Some n \<Rightarrow> Some (if neg then - int n else int n)))"

definition py_int :: "'f builtins \<Rightarrow> string \<Rightarrow> int option" where
  \<comment> \<open>\<^verbatim>\<open>int(s)\<close> of a string; \<open>None\<close> when it raises ValueError\<close>
  "py_int env s = (if ascii s then int_ascii env s else int_of_str env s)"

fun truthy :: "'f builtins \<Rightarrow> 'f json \<Rightarrow> bool" where
  \<comment> \<open>\<^verbatim>\<open>bool(v)\<close>, the test of \<^verbatim>\<open>if v:\<close>\<close>
  "truthy env JNull = False"
| "truthy env (JBool b) = b"
| "truthy env (JInt i) = (i \<noteq> 0)"
| "truthy env (JFloat x) = float_nonzero env x"
| "truthy env (JStr s) = (s \<noteq> [])"
| "truthy env (JList xs) = (xs \<noteq> [])"
| "truthy env (JDict d) = (d \<noteq> [])"

fun py_str :: "'f builtins \<Rightarrow> 'f json \<Rightarrow> string" where
  \<comment> \<open>\<^verbatim>\<open>str(v)\<close>\<close>
  "py_str env JNull = ''None''"
| "py_str env (JBool b) = (if b then ''True'' else ''False'')"
| "py_str env (JInt i) = str_int i"
| "py_str env (JFloat x) = str_of_float env x"
| "py_str env (JStr s) = s"
| "py_str env (JList xs) = repr_of env (JList xs)"
| "py_str env (JDict d) = repr_of env (JDict d)"

section \<open>Type Mapper\<close>

definition type_mapping :: "(string \<times> string) list" where
  "type_mapping =
     [(''text'', ''singleLineText''),
      (''textarea'', ''multilineText''),
      (''email'', ''email''),
      (''phone'', ''phoneNumber''),
      (''website'', ''url''),
      (''picklist'', ''singleSelect''),
      (''multiselectpicklist'', ''multipleSelects''),
      (''boolean'', ''singleLineText''),
      (''integer'', ''number''),
      (''bigint'', ''number''),
      (''double'', ''number''),
      (''currency'', ''currency''),
      (''date'', ''date''),
      (''datetime'', ''dateTime''),
      (''lookup'', ''singleLineText''),
      (''ownerlookup'', ''singleLineText''),
      (''userlookup'', ''singleLineText''),
      (''fileupload'', ''multilineText''),
      (''profileimage'', ''multilineText'')]"

fun iterate :: "'f builtins \<Rightarrow> 'f json \<Rightarrow> pyerror + 'f json list" where
  \<comment> \<open>what \<^verbatim>\<open>for item in v\<close> runs over: a list's elements, a string's characters, a
      dictionary's keys; anything else is not iterable\<close>
  "iterate env (JList xs) = Inr xs"
| "iterate env (JStr s) =
     Inr (if ascii s then map (\<lambda>c. JStr [c]) s else map JStr (str_chars env s))"
| "iterate env (JDict d) = Inr (map (\<lambda>kv. JStr (fst kv)) d)"
| "iterate env _ = Inl TypeError"

definition py_or :: "'f builtins \<Rightarrow> 'f json \<Rightarrow> 'f json \<Rightarrow> 'f json" where
  \<comment> \<open>\<^verbatim>\<open>a or b\<close>\<close>
  "py_or env a b = (if truthy env a then a else b)"

fun collect_choices :: "'f builtins \<Rightarrow> 'f json list \<Rightarrow> 'f json list \<Rightarrow> 'f json list" where
  \<comment> \<open>the loop \<^verbatim>\<open>for item in pick_list\<close>, appending to \<^verbatim>\<open>choices\<close>\<close>
  "collect_choices env [] choices = choices"
| "collect_choices env (item # rest) choices =
     (case item of
        JDict d \<Rightarrow>
          (let v = py_or env (dict_get d ''display_value'' JNull) (dict_get d ''actual_value'' JNull)
           in if truthy env v then collect_choices env rest (choices @ [JDict [(''name'', v)]])
              else collect_choices env rest choices)
      | JStr s \<Rightarrow> collect_choices env rest (choices @ [JDict [(''name'', JStr s)]])
      | _ \<Rightarrow> collect_choices env rest choices)"

definition select_options :: "'f builtins \<Rightarrow> 'f dict \<Rightarrow> pyerror + 'f json" where
  \<comment> \<open>the body shared, word for word, by the singleSelect and the multipleSelects branch\<close>
  "select_options env zoho_field =
     (case (if dict_has zoho_field ''pick_list_values''
            then iterate env (dict_get zoho_field ''pick_list_values'' JNull)
            else Inr []) of
        Inl e \<Rightarrow> Inl e
      | Inr pick_list \<Rightarrow>
          (let choices = collect_choices env pick_list [];
               choices = (if choices = [] then [JDict [(''name'', JStr ''None'')]] else choices)
           in Inr (JDict [(''choices'', JList choices)])))"

definition map_zoho_type_to_airtable :: "'f builtins \<Rightarrow> 'f dict \<Rightarrow> pyerror + 'f dict" where
  "map_zoho_type_to_airtable env zoho_field =
     (case dict_get zoho_field ''data_type'' (JStr ''text'') of
        JStr zoho_type \<Rightarrow>
          (let airtable_type = dict_get type_mapping (lower env zoho_type) ''singleLineText'';
               field_config = [(''type'', JStr airtable_type)]
           in if airtable_type = ''currency'' then
                Inr (field_config @
                  [(''options'', JDict [(''precision'', JInt 2), (''symbol'', JStr ''$'')])])
              else if airtable_type = ''number'' then
                Inr (field_config @
                  [(''options'', JDict [(''precision'',
                      JInt (if lower env zoho_type \<in> set [''integer'', ''bigint''] then 0 else 2))])])
              else if airtable_type = ''date'' then
                Inr (field_config @
                  [(''options'', JDict [(''dateFormat'',
                      JDict [(''name'', JStr ''iso''), (''format'', JStr ''YYYY-MM-DD'')])])])
              else if airtable_type = ''dateTime'' then
                Inr (field_config @
                  [(''options'', JDict
                     [(''dateFormat'',
                         JDict [(''name'', JStr ''iso''), (''format'', JStr ''YYYY-MM-DD'')]),
                      (''timeFormat'',
                         JDict [(''name'', JStr ''24hour''), (''format'', JStr ''HH:mm'')]),
                      (''timeZone'', JStr ''utc'')])])
              else if airtable_type = ''singleSelect'' then
                (case select_options env zoho_field of
                   Inl e \<Rightarrow> Inl e
                 | Inr opts \<Rightarrow> Inr (field_config @ [(''options'', opts)]))
              else if airtable_type = ''multipleSelects'' then
                (case select_options env zoho_field of
                   Inl e \<Rightarrow> Inl e
                 | Inr opts \<Rightarrow> Inr (field_config @ [(''options'', opts)]))
              else Inr field_config)
      | _ \<Rightarrow> Inl AttributeError)"

section \<open>Value Converter\<close>

definition field_blacklists :: "(string \<times> string list) list" where
  "field_blacklists =
     [(''Users'', [''offset'', ''time_zone'', ''Microsoft'', ''country_locale''])]"

definition blacklisted_fields :: "string option \<Rightarrow> string list" where
  \<comment> \<open>\<^verbatim>\<open>field_blacklists.get(module_name, set())\<close>; \<^verbatim>\<open>module_name\<close> defaults to None\<close>
  "blacklisted_fields module_name =
     (case module_name of None \<Rightarrow> [] | Some m \<Rightarrow> dict_get field_blacklists m [])"

definition clean_name :: "string \<Rightarrow> string" where
  "clean_name key = (if startswith_dollar key then lstrip_dollar key else key)"

definition expected_type_of :: "(string \<times> 'f dict) list \<Rightarrow> string \<Rightarrow> 'f json" where
  \<comment> \<open>\<^verbatim>\<open>field_type_map.get(clean_key, {}).get('type', 'singleLineText')\<close>\<close>
  "expected_type_of field_type_map clean_key =
     dict_get (dict_get field_type_map clean_key []) ''type'' (JStr ''singleLineText'')"

definition is_numeric_type :: "'f json \<Rightarrow> bool" where
  \<comment> \<open>\<^verbatim>\<open>expected_type in ['number', 'currency']\<close>\<close>
  "is_numeric_type t = (t = JStr ''number'' \<or> t = JStr ''currency'')"

fun names_of :: "'f builtins \<Rightarrow> 'f json list \<Rightarrow> pyerror + 'f json list" where
  \<comment> \<open>\<^verbatim>\<open>[v.get('name', str(v)) for v in value]\<close>: only a dictionary has \<^verbatim>\<open>get\<close>\<close>
  "names_of env [] = Inr []"
| "names_of env (v # vs) =
     (case v of
        JDict d \<Rightarrow>
          (case names_of env vs of
             Inl e \<Rightarrow> Inl e
           | Inr ns \<Rightarrow> Inr (dict_get d ''name'' (JStr (py_str env v)) # ns))
      | _ \<Rightarrow> Inl AttributeError)"

fun strings_of :: "'f json list \<Rightarrow> pyerror + string list" where
  \<comment> \<open>\<^verbatim>\<open>str.join\<close> takes strings only\<close>
  "strings_of [] = Inr []"
| "strings_of (v # vs) =
     (case v of
        JStr s \<Rightarrow> (case strings_of vs of Inl e \<Rightarrow> Inl e | Inr ss \<Rightarrow> Inr (s # ss))
      | _ \<Rightarrow> Inl TypeError)"

definition has_dot_or_e :: "'f builtins \<Rightarrow> string \<Rightarrow> bool" where
  \<comment> \<open>\<^verbatim>\<open>'.' in value or 'e' in value.lower()\<close>\<close>
  "has_dot_or_e env s = (CHR ''.'' \<in> set s \<or> CHR ''e'' \<in> set (lower env s))"

definition convert_field ::
  "'f builtins \<Rightarrow> (string \<times> 'f dict) list \<Rightarrow> string list \<Rightarrow> string \<Rightarrow> 'f json
     \<Rightarrow> pyerror + (string \<times> 'f json) option" where
  \<comment> \<open>one round of \<^verbatim>\<open>for key, value in record.items()\<close>: \<open>Inr None\<close> when nothing is
      stored, \<open>Inr (Some (k, v))\<close> for \<^verbatim>\<open>fields[k] = v\<close>, \<open>Inl\<close> for an exception\<close>
  "convert_field env field_type_map blacklist key value =
     (if key \<in> set blacklist then Inr None
      else
        let clean_key = clean_name key;
            expected_type = expected_type_of field_type_map clean_key
        in case value of
             JNull \<Rightarrow> Inr None
           | JBool b \<Rightarrow> Inr (Some (clean_key, JStr (if b then ''Yes'' else ''No'')))
           | JDict d \<Rightarrow>
               if dict_has d ''name'' then Inr (Some (clean_key, dict_get d ''name'' JNull))
               else if dict_has d ''id'' \<and> \<not> dict_has d ''name'' then
                 Inr (Some (clean_key, JStr (py_str env (dict_get d ''id'' (JStr [])))))
               else Inr (Some (clean_key, JStr (py_str env value)))
           | JList xs \<Rightarrow>
               (case xs of
                  [] \<Rightarrow> Inr None
                | x # _ \<Rightarrow>
                    (case x of
                       JDict _ \<Rightarrow>
                         (case names_of env xs of
                            Inl e \<Rightarrow> Inl e
                          | Inr names \<Rightarrow>
                              (case strings_of names of
                                 Inl e \<Rightarrow> Inl e
                               | Inr ss \<Rightarrow> Inr (Some (clean_key, JStr (join '', '' ss)))))
                     | _ \<Rightarrow>
                         Inr (Some (clean_key, JStr (join '', '' (map (py_str env) xs))))))
           | JInt i \<Rightarrow>
               if is_numeric_type expected_type then Inr (Some (clean_key, value))
               else if expected_type = JStr ''singleLineText'' then
                 Inr (Some (clean_key, JStr (py_str env value)))
               else Inr (Some (clean_key, value))
           | JFloat x \<Rightarrow>
               if is_numeric_type expected_type then Inr (Some (clean_key, value))
               else if expected_type = JStr ''singleLineText'' then
                 Inr (Some (clean_key, JStr (py_str env value)))
               else Inr (Some (clean_key, value))
           | JStr s \<Rightarrow>
               if is_numeric_type expected_type then
                 (if has_dot_or_e env s then
                    (case float_of_str env s of
                       None \<Rightarrow> Inr None
                     | Some x \<Rightarrow> Inr (Some (clean_key, JFloat x)))
                  else
                    (case py_int env s of
                       None \<Rightarrow> Inr None
                     | Some i \<Rightarrow> Inr (Some (clean_key, JInt i))))
               else Inr (Some (clean_key, value)))"

fun convert_items ::
  "'f builtins \<Rightarrow> (string \<times> 'f dict) list \<Rightarrow> string list \<Rightarrow> 'f dict \<Rightarrow> 'f dict
     \<Rightarrow> pyerror + 'f dict" where
  \<comment> \<open>the loop over \<^verbatim>\<open>record.items()\<close>, threading \<^verbatim>\<open>fields\<close> (here \<open>flds\<close>)\<close>
  "convert_items env field_type_map blacklist [] flds = Inr flds"
| "convert_items env field_type_map blacklist ((key, value) # rest) flds =
     (case convert_field env field_type_map blacklist key value of
        Inl e \<Rightarrow> Inl e
      | Inr None \<Rightarrow> convert_items env field_type_map blacklist rest flds
      | Inr (Some (k, v)) \<Rightarrow>
          convert_items env field_type_map blacklist rest (dict_set flds k v))"

fun convert_records ::
  "'f builtins \<Rightarrow> (string \<times> 'f dict) list \<Rightarrow> string list \<Rightarrow> 'f json list \<Rightarrow> 'f json list
     \<Rightarrow> pyerror + 'f json list" where
  \<comment> \<open>the loop over \<^verbatim>\<open>zoho_records\<close>, threading \<^verbatim>\<open>airtable_records\<close>; \<^verbatim>\<open>items\<close> is a
      method of dictionaries only\<close>
  "convert_records env field_type_map blacklist [] airtable_records = Inr airtable_records"
| "convert_records env field_type_map blacklist (record # rest) airtable_records =
     (case record of
        JDict items \<Rightarrow>
          (case convert_items env field_type_map blacklist items [] of
             Inl e \<Rightarrow> Inl e
           | Inr flds \<Rightarrow>
               convert_records env field_type_map blacklist rest
                 (airtable_records @ [JDict [(''fields'', JDict flds)]]))
      | _ \<Rightarrow> Inl AttributeError)"

definition convert_zoho_to_airtable ::
  "'f builtins \<Rightarrow> 'f json list \<Rightarrow> (string \<times> 'f dict) list \<Rightarrow> string option
     \<Rightarrow> pyerror + 'f json list" where
  "convert_zoho_to_airtable env zoho_records field_type_map module_name =
     convert_records env field_type_map (blacklisted_fields module_name) zoho_records []"

section \<open>The destination base and the services around the program\<close>

text \<open>
  The Airtable base is a state: its tables (name and field names, as the schema request
  lists them) together with the log of the requests that change or load something, and
  the console, which holds the line that reports a failed batch. The schema request itself
  is taken to answer. What the two services answer is not code of
  this program: it is the record \<open>services\<close>, any of whose answers may depend
  on the state. A table created by \<^verbatim>\<open>create_table\<close> starts with the field \<^verbatim>\<open>Name\<close>
  the request carries; a field the base accepts is added to its table. The rows a table
  holds are not part of the state: an insert is known by its log entry and by the created
  records the base answers with, \<^verbatim>\<open>clear_table\<close> by its log entry. The log entry
  \<open>FetchRecords\<close> is written when \<^verbatim>\<open>get_all_records\<close> is called. Of the printing,
  the line \<^verbatim>\<open>Error creating batch: ...\<close> of the handler in \<^verbatim>\<open>batch_create_records\<close> is
  kept, as the console entry \<open>ErrorCreatingBatch\<close> with the exception it reports; the
  other lines and the pauses of \<^verbatim>\<open>time.sleep\<close> change nothing that is returned and are
  left out.

  The bookkeeping of \<^verbatim>\<open>self.id_mapping\<close> in \<^verbatim>\<open>batch_create_records\<close> is left out:
  nothing reads it, it runs after \<^verbatim>\<open>created_records\<close> has been extended, and the same
  handler swallows whatever it raises.
\<close>

datatype request =
    FetchRecords string
  | PostTable string
  | PostField string string
  | PostRecords string nat
  | ClearTable string

datatype message = ErrorCreatingBatch pyerror

record world =
  tables :: "(string \<times> string list) list"
  requests :: "request list"
  console :: "message list"

datatype post_answer = Created | DuplicateOrEmptyFieldName | Refused

record 'f services =
  get_module_fields :: "world \<Rightarrow> string \<Rightarrow> 'f json list"
  get_all_records :: "world \<Rightarrow> string \<Rightarrow> pyerror + 'f json list"
  post_table :: "world \<Rightarrow> string \<Rightarrow> bool"
  post_field :: "world \<Rightarrow> string \<Rightarrow> string \<Rightarrow> 'f dict \<Rightarrow> post_answer"
  batch_create :: "world \<Rightarrow> string \<Rightarrow> 'f json list \<Rightarrow> pyerror + 'f json list"

definition sent :: "request \<Rightarrow> world \<Rightarrow> world" where
  "sent r w = w\<lparr>requests := requests w @ [r]\<rparr>"

definition printed :: "message \<Rightarrow> world \<Rightarrow> world" where
  "printed msg w = w\<lparr>console := console w @ [msg]\<rparr>"

definition get_existing_fields :: "world \<Rightarrow> string \<Rightarrow> string list" where
  "get_existing_fields w table_name = dict_get (tables w) table_name []"

definition table_exists :: "world \<Rightarrow> string \<Rightarrow> bool" where
  "table_exists w table_name = (table_name \<in> set (map fst (tables w)))"

fun add_field :: "(string \<times> string list) list \<Rightarrow> string \<Rightarrow> string \<Rightarrow> (string \<times> string list) list" where
  \<comment> \<open>the first table of that name gets the field\<close>
  "add_field [] table_name field_name = []"
| "add_field ((n, fs) # ts) table_name field_name =
     (if n = table_name then (n, fs @ [field_name]) # ts
      else (n, fs) # add_field ts table_name field_name)"

definition create_table :: "'f services \<Rightarrow> world \<Rightarrow> string \<Rightarrow> bool \<times> world" where
  "create_table svc w table_name =
     (let w' = sent (PostTable table_name) w
      in if post_table svc w table_name
         then (True, w'\<lparr>tables := tables w' @ [(table_name, [''Name''])]\<rparr>)
         else (False, w'))"

definition create_or_get_table :: "'f services \<Rightarrow> world \<Rightarrow> string \<Rightarrow> world" where
  "create_or_get_table svc w table_name =
     (if \<not> table_exists w table_name then snd (create_table svc w table_name) else w)"

definition clear_table :: "'f services \<Rightarrow> world \<Rightarrow> string \<Rightarrow> world" where
  "clear_table svc w table_name = sent (ClearTable table_name) (create_or_get_table svc w table_name)"

section \<open>Schema Reconciler\<close>

definition create_field_if_not_exists ::
  "'f builtins \<Rightarrow> 'f services \<Rightarrow> world \<Rightarrow> string \<Rightarrow> string \<Rightarrow> 'f dict
     \<Rightarrow> bool \<times> world" where
  "create_field_if_not_exists env svc w table_name field_name field_config =
     (case map_of (tables w) table_name of
        None \<Rightarrow> (False, w)
      | Some existing_fields \<Rightarrow>
          if field_name \<in> set existing_fields then (True, w)
          else if lower env field_name \<in> set (map (lower env) existing_fields) then (True, w)
          else
            (let w' = sent (PostField table_name field_name) w
             in case post_field svc w table_name field_name field_config of
                  Created \<Rightarrow>
                    (True, w'\<lparr>tables := add_field (tables w') table_name field_name\<rparr>)
                | DuplicateOrEmptyFieldName \<Rightarrow> (True, w')
                | Refused \<Rightarrow> (False, w')))"

fun select_new_fields ::
  "'f builtins \<Rightarrow> string list \<Rightarrow> (string \<times> 'f dict) list \<Rightarrow> (string \<times> 'f dict) list
     \<Rightarrow> (string \<times> 'f dict) list" where
  \<comment> \<open>the first loop of \<^verbatim>\<open>ensure_fields_exist\<close>, threading \<^verbatim>\<open>fields_to_create\<close>\<close>
  "select_new_fields env existing_fields [] fields_to_create = fields_to_create"
| "select_new_fields env existing_fields ((field_name, field_config) # rest) fields_to_create =
     (if field_name \<in> set existing_fields then
        select_new_fields env existing_fields rest fields_to_create
      else if lower env field_name \<in> set (map (lower env) existing_fields) then
        select_new_fields env existing_fields rest fields_to_create
      else
        select_new_fields env existing_fields rest
          (fields_to_create @ [(field_name, field_config)]))"

fun create_fields ::
  "'f builtins \<Rightarrow> 'f services \<Rightarrow> world \<Rightarrow> string \<Rightarrow> (string \<times> 'f dict) list \<Rightarrow> world" where
  \<comment> \<open>the second loop of \<^verbatim>\<open>ensure_fields_exist\<close>\<close>
  "create_fields env svc w table_name [] = w"
| "create_fields env svc w table_name ((field_name, field_config) # rest) =
     create_fields env svc
       (snd (create_field_if_not_exists env svc w table_name field_name field_config))
       table_name rest"

definition ensure_fields_exist ::
  "'f builtins \<Rightarrow> 'f services \<Rightarrow> world \<Rightarrow> string \<Rightarrow> (string \<times> 'f dict) list \<Rightarrow> world" where
  \<comment> \<open>returns True on every path; the state after it is what matters\<close>
  "ensure_fields_exist env svc w table_name field_definitions =
     (let existing_fields = get_existing_fields w table_name;
          fields_to_create = select_new_fields env existing_fields field_definitions []
      in if fields_to_create = [] then w
         else create_fields env svc w table_name fields_to_create)"

section \<open>Batch load\<close>

definition field_mapping_of :: "'f builtins \<Rightarrow> string list \<Rightarrow> (string \<times> string) list" where
  \<comment> \<open>\<^verbatim>\<open>{f.lower(): f for f in existing_fields}\<close>: of two names equal up to case the later
      one stays\<close>
  "field_mapping_of env existing_fields =
     foldl (\<lambda>m f. dict_set m (lower env f) f) [] existing_fields"

fun map_fields ::
  "'f builtins \<Rightarrow> string list \<Rightarrow> (string \<times> string) list \<Rightarrow> 'f dict \<Rightarrow> 'f dict \<Rightarrow> 'f dict" where
  \<comment> \<open>the loop over \<^verbatim>\<open>record_fields.items()\<close>, threading \<^verbatim>\<open>mapped_fields\<close>\<close>
  "map_fields env existing_fields field_mapping [] mapped_fields = mapped_fields"
| "map_fields env existing_fields field_mapping ((key, value) # rest) mapped_fields =
     (if key \<in> set existing_fields then
        map_fields env existing_fields field_mapping rest (dict_set mapped_fields key value)
      else
        (case map_of field_mapping (lower env key) of
           Some f \<Rightarrow>
             map_fields env existing_fields field_mapping rest (dict_set mapped_fields f value)
         | None \<Rightarrow> map_fields env existing_fields field_mapping rest mapped_fields))"

definition record_fields_of :: "'f json \<Rightarrow> 'f json" where
  \<comment> \<open>\<^verbatim>\<open>record['fields'] if isinstance(record, dict) and 'fields' in record else record\<close>\<close>
  "record_fields_of record =
     (case record of
        JDict d \<Rightarrow> if dict_has d ''fields'' then dict_get d ''fields'' JNull else record
      | _ \<Rightarrow> record)"

fun build_batch_data ::
  "'f builtins \<Rightarrow> string list \<Rightarrow> (string \<times> string) list \<Rightarrow> 'f json list \<Rightarrow> 'f json list
     \<Rightarrow> pyerror + 'f json list" where
  \<comment> \<open>the loop over \<^verbatim>\<open>batch\<close>, threading \<^verbatim>\<open>batch_data\<close>; \<^verbatim>\<open>items\<close> needs a dictionary\<close>
  "build_batch_data env existing_fields field_mapping [] batch_data = Inr batch_data"
| "build_batch_data env existing_fields field_mapping (record # rest) batch_data =
     (case record_fields_of record of
        JDict items \<Rightarrow>
          (let mapped_fields = map_fields env existing_fields field_mapping items []
           in if mapped_fields \<noteq> [] then
                build_batch_data env existing_fields field_mapping rest
                  (batch_data @ [JDict mapped_fields])
              else build_batch_data env existing_fields field_mapping rest batch_data)
      | _ \<Rightarrow> Inl AttributeError)"

function batches :: "nat \<Rightarrow> 'a list \<Rightarrow> 'a list list" where
  \<comment> \<open>\<^verbatim>\<open>records[i:i + batch_size]\<close> for \<^verbatim>\<open>i in range(0, len(records), batch_size)\<close>, for a
      positive \<^verbatim>\<open>batch_size\<close>\<close>
  "batches n xs = (if n = 0 \<or> xs = [] then [] else take n xs # batches n (drop n xs))"
  by pat_completeness auto
termination
  by (relation "measure (\<lambda>(n, xs). length xs)") auto

declare batches.simps [simp del]

fun insert_batches ::
  "'f builtins \<Rightarrow> 'f services \<Rightarrow> world \<Rightarrow> string \<Rightarrow> string list \<Rightarrow> (string \<times> string) list
     \<Rightarrow> 'f json list list \<Rightarrow> 'f json list \<Rightarrow> 'f json list \<times> world" where
  \<comment> \<open>the loop over the batches, threading \<^verbatim>\<open>created_records\<close>; the handler of
      \<^verbatim>\<open>except Exception\<close> prints the failure and the loop goes on to the next batch\<close>
  "insert_batches env svc w table_name existing_fields field_mapping [] created_records =
     (created_records, w)"
| "insert_batches env svc w table_name existing_fields field_mapping (batch # rest)
     created_records =
     (case build_batch_data env existing_fields field_mapping batch [] of
        Inl e \<Rightarrow>
          insert_batches env svc (printed (ErrorCreatingBatch e) w) table_name existing_fields
            field_mapping rest created_records
      | Inr batch_data \<Rightarrow>
          if batch_data = [] then
            insert_batches env svc w table_name existing_fields field_mapping rest
              created_records
          else
            (let w' = sent (PostRecords table_name (length batch_data)) w
             in case batch_create svc w table_name batch_data of
                  Inl e \<Rightarrow>
                    insert_batches env svc (printed (ErrorCreatingBatch e) w') table_name
                      existing_fields field_mapping rest created_records
                | Inr result \<Rightarrow>
                    insert_batches env svc w' table_name existing_fields field_mapping rest
                      (created_records @ result)))"

definition batch_create_records ::
  "'f builtins \<Rightarrow> 'f services \<Rightarrow> world \<Rightarrow> string \<Rightarrow> 'f json list \<Rightarrow> nat
     \<Rightarrow> (pyerror + 'f json list) \<times> world" where
  \<comment> \<open>\<^verbatim>\<open>range\<close> raises ValueError for a step of 0, outside the \<^verbatim>\<open>try\<close>\<close>
  "batch_create_records env svc w table_name records batch_size =
     (if records = [] then (Inr [], w)
      else
        let existing_fields = get_existing_fields w table_name;
            field_mapping = field_mapping_of env existing_fields;
            w' = create_or_get_table svc w table_name
        in if batch_size = 0 then (Inl ValueError, w')
           else
             (case insert_batches env svc w' table_name existing_fields field_mapping
                     (batches batch_size records) [] of
                (created_records, w'') \<Rightarrow> (Inr created_records, w'')))"

section \<open>Sync Orchestrator\<close>

fun build_field_type_map ::
  "'f builtins \<Rightarrow> 'f json list \<Rightarrow> (string \<times> 'f dict) list
     \<Rightarrow> pyerror + (string \<times> 'f dict) list" where
  \<comment> \<open>the loop over \<^verbatim>\<open>zoho_fields\<close>, threading \<^verbatim>\<open>field_type_map\<close>\<close>
  "build_field_type_map env [] field_type_map = Inr field_type_map"
| "build_field_type_map env (zoho_field # rest) field_type_map =
     (case zoho_field of
        JDict zf \<Rightarrow>
          (case dict_get zf ''api_name'' (JStr []) of
             JStr field_name \<Rightarrow>
               (let clean_field_name = clean_name field_name
                in if clean_field_name \<noteq> [] then
                     (case map_zoho_type_to_airtable env zf of
                        Inl e \<Rightarrow> Inl e
                      | Inr cfg \<Rightarrow>
                          build_field_type_map env rest
                            (dict_set field_type_map clean_field_name cfg))
                   else build_field_type_map env rest field_type_map)
           | _ \<Rightarrow> Inl AttributeError)
      | _ \<Rightarrow> Inl AttributeError)"

definition sync_module_recursive ::
  "'f builtins \<Rightarrow> 'f services \<Rightarrow> world \<Rightarrow> string \<Rightarrow> bool \<Rightarrow> string set
     \<Rightarrow> nat \<times> string set \<times> world" where
  \<comment> \<open>returns the count, the set \<^verbatim>\<open>synced_modules\<close> as the call leaves it, and the state;
      every exception inside ends in \<^verbatim>\<open>return 0\<close>\<close>
  "sync_module_recursive env svc w module_name clear_existing synced_modules =
     (if module_name \<in> synced_modules then (0, synced_modules, w)
      else
        case (if \<not> table_exists w module_name then create_table svc w module_name
              else (True, w)) of
          (False, w1) \<Rightarrow> (0, synced_modules, w1)
        | (True, w1) \<Rightarrow>
            (case build_field_type_map env (get_module_fields svc w1 module_name) [] of
               Inl e \<Rightarrow> (0, synced_modules, w1)
             | Inr field_type_map \<Rightarrow>
                 (let w2 = sent (FetchRecords module_name) w1
                  in case get_all_records svc w1 module_name of
                       Inl e \<Rightarrow> (0, synced_modules, w2)
                     | Inr zoho_records \<Rightarrow>
                         if zoho_records = [] then (0, insert module_name synced_modules, w2)
                         else
                           (case convert_zoho_to_airtable env zoho_records field_type_map
                                   (Some module_name) of
                              Inl e \<Rightarrow> (0, synced_modules, w2)
                            | Inr airtable_records \<Rightarrow>
                                (let w3 = (if field_type_map \<noteq> []
                                           then ensure_fields_exist env svc w2 module_name
                                                  field_type_map
                                           else w2);
                                     w4 = (if clear_existing then clear_table svc w3 module_name
                                           else w3)
                                 in case batch_create_records env svc w4 module_name
                                           airtable_records 10 of
                                      (Inl e, w5) \<Rightarrow> (0, synced_modules, w5)
                                    | (Inr created, w5) \<Rightarrow>
                                        (length created, insert module_name synced_modules,
                                         w5))))))"

definition sync_module :: "'f builtins \<Rightarrow> 'f services \<Rightarrow> world \<Rightarrow> string \<Rightarrow> bool \<Rightarrow> nat \<times> world" where
  \<comment> \<open>\<^verbatim>\<open>synced_modules = set()\<close>, new at every call\<close>
  "sync_module env svc w module_name clear_existing =
     (case sync_module_recursive env svc w module_name clear_existing {} of
        (n, synced, w') \<Rightarrow> (n, w'))"

subsection \<open>The run of \<^verbatim>\<open>main\<close>\<close>

fun split_on :: "char \<Rightarrow> string \<Rightarrow> string list" where
  \<comment> \<open>\<^verbatim>\<open>s.split(c)\<close>\<close>
  "split_on c [] = [[]]"
| "split_on c (x # xs) =
     (if x = c then [] # split_on c xs
      else (case split_on c xs of [] \<Rightarrow> [[x]] | p # ps \<Rightarrow> (x # p) # ps))"

fun pick_modules :: "'f builtins \<Rightarrow> string list \<Rightarrow> string list \<Rightarrow> string list \<Rightarrow> string list" where
  \<comment> \<open>the loop over the typed indices, threading \<^verbatim>\<open>modules_to_sync\<close>; \<^verbatim>\<open>modules\<close> is
      given by its \<^verbatim>\<open>api_name\<close>s\<close>
  "pick_modules env modules [] modules_to_sync = modules_to_sync"
| "pick_modules env modules (idx # rest) modules_to_sync =
     (case py_int env (strip env idx) of
        None \<Rightarrow> pick_modules env modules rest modules_to_sync
      | Some n \<Rightarrow>
          (let i = n - 1
           in if 0 \<le> i \<and> i < int (length modules) then
                pick_modules env modules rest (modules_to_sync @ [modules ! nat i])
              else pick_modules env modules rest modules_to_sync))"

definition select_modules :: "'f builtins \<Rightarrow> string list \<Rightarrow> string \<Rightarrow> string \<Rightarrow> string list" where
  \<comment> \<open>\<^verbatim>\<open>choice\<close> is the first answer, stripped; \<^verbatim>\<open>line\<close> the second, read when the
      choice is 2\<close>
  "select_modules env modules choice line =
     (if choice = ''1'' then modules
      else if choice = ''2'' then
        pick_modules env modules (split_on (CHR '','') (strip env line)) []
      else [])"

fun sync_each ::
  "'f builtins \<Rightarrow> 'f services \<Rightarrow> bool \<Rightarrow> string list \<Rightarrow> world \<Rightarrow> nat \<Rightarrow> nat \<times> world" where
  \<comment> \<open>\<^verbatim>\<open>for module_name in modules_to_sync\<close>, threading \<^verbatim>\<open>total_synced\<close>\<close>
  "sync_each env svc clear [] w total_synced = (total_synced, w)"
| "sync_each env svc clear (module_name # rest) w total_synced =
     (case sync_module env svc w module_name clear of
        (synced, w') \<Rightarrow> sync_each env svc clear rest w' (total_synced + synced))"

definition main_sync ::
  "'f builtins \<Rightarrow> 'f services \<Rightarrow> world \<Rightarrow> string list \<Rightarrow> string \<Rightarrow> string \<Rightarrow> bool \<Rightarrow> nat \<times> world" where
  \<comment> \<open>\<^verbatim>\<open>main\<close> from the two prompts on\<close>
  "main_sync env svc w modules choice line clear =
     sync_each env svc clear (select_modules env modules choice line) w 0"

section \<open>What the specification says, for comparison\<close>

definition choice_value :: "'f builtins \<Rightarrow> 'f json \<Rightarrow> 'f json option" where
  \<comment> \<open>Spec 4.1, edge case: a bare string is the choice; an object gives its display value,
      else its underlying value; an entry yielding neither is skipped\<close>
  "choice_value env item =
     (case item of
        JStr s \<Rightarrow> Some (JStr s)
      | JDict d \<Rightarrow>
          if truthy env (dict_get d ''display_value'' JNull)
          then Some (dict_get d ''display_value'' JNull)
          else if truthy env (dict_get d ''actual_value'' JNull)
          then Some (dict_get d ''actual_value'' JNull)
          else None
      | _ \<Rightarrow> None)"

definition spec_choices :: "'f builtins \<Rightarrow> 'f json list \<Rightarrow> 'f json list" where
  \<comment> \<open>Spec 4.1, picklist row, without the word "deduplicated": the choices in source
      order, and the placeholder when there are none\<close>
  "spec_choices env items =
     (let cs = map (\<lambda>v. JDict [(''name'', v)]) (List.map_filter (choice_value env) items)
      in if cs = [] then [JDict [(''name'', JStr ''None'')]] else cs)"

definition iso_date :: "'f json" where
  "iso_date = JDict [(''name'', JStr ''iso''), (''format'', JStr ''YYYY-MM-DD'')]"

definition known_type_table :: "(string \<times> 'f dict) list" where
  \<comment> \<open>Spec 4.1, the rows of the known-type table that carry no choices\<close>
  "known_type_table =
     [(''text'', [(''type'', JStr ''singleLineText'')]),
      (''lookup'', [(''type'', JStr ''singleLineText'')]),
      (''ownerlookup'', [(''type'', JStr ''singleLineText'')]),
      (''userlookup'', [(''type'', JStr ''singleLineText'')]),
      (''boolean'', [(''type'', JStr ''singleLineText'')]),
      (''textarea'', [(''type'', JStr ''multilineText'')]),
      (''fileupload'', [(''type'', JStr ''multilineText'')]),
      (''profileimage'', [(''type'', JStr ''multilineText'')]),
      (''email'', [(''type'', JStr ''email'')]),
      (''phone'', [(''type'', JStr ''phoneNumber'')]),
      (''website'', [(''type'', JStr ''url'')]),
      (''integer'', [(''type'', JStr ''number''), (''options'', JDict [(''precision'', JInt 0)])]),
      (''bigint'', [(''type'', JStr ''number''), (''options'', JDict [(''precision'', JInt 0)])]),
      (''double'', [(''type'', JStr ''number''), (''options'', JDict [(''precision'', JInt 2)])]),
      (''currency'', [(''type'', JStr ''currency''),
         (''options'', JDict [(''precision'', JInt 2), (''symbol'', JStr ''$'')])]),
      (''date'', [(''type'', JStr ''date''), (''options'', JDict [(''dateFormat'', iso_date)])]),
      (''datetime'', [(''type'', JStr ''dateTime''),
         (''options'', JDict
            [(''dateFormat'', iso_date),
             (''timeFormat'', JDict [(''name'', JStr ''24hour''), (''format'', JStr ''HH:mm'')]),
             (''timeZone'', JStr ''utc'')])])]"

definition select_type_table :: "(string \<times> string) list" where
  \<comment> \<open>Spec 4.1, the two rows that carry choices\<close>
  "select_type_table =
     [(''picklist'', ''singleSelect''), (''multiselectpicklist'', ''multipleSelects'')]"

definition exponent_marker :: "'f builtins \<Rightarrow> string \<Rightarrow> bool" where
  \<comment> \<open>Spec 4.2: an exponent marker is an e, in either case\<close>
  "exponent_marker env s = (CHR ''e'' \<in> set (lower env s))"

definition parse_number :: "'f builtins \<Rightarrow> string \<Rightarrow> 'f json option" where
  \<comment> \<open>Spec 4.2, string row: float if the text contains a dot or an exponent marker, else
      integer; \<open>None\<close> on parse failure\<close>
  "parse_number env s =
     (if CHR ''.'' \<in> set s \<or> exponent_marker env s
      then map_option JFloat (float_of_str env s)
      else map_option JInt (py_int env s))"

definition within_digit_limit :: "'f builtins \<Rightarrow> nat \<Rightarrow> bool" where
  \<comment> \<open>a literal of so many digits is one the interpreter agrees to parse\<close>
  "within_digit_limit env k =
     (k \<le> 640 \<or> int_max_str_digits env = 0 \<or> k \<le> int_max_str_digits env)"

definition fetches :: "world \<Rightarrow> string list" where
  \<comment> \<open>the modules whose records were fetched, in the order of the fetches\<close>
  "fetches w = concat (map (\<lambda>r. case r of FetchRecords m \<Rightarrow> [m] | _ \<Rightarrow> []) (requests w))"

definition scalar :: "'f json \<Rightarrow> bool" where
  \<comment> \<open>Spec 3, ConvertedRecord: a string or a number\<close>
  "scalar v = (case v of JStr _ \<Rightarrow> True | JInt _ \<Rightarrow> True | JFloat _ \<Rightarrow> True | _ \<Rightarrow> False)"

definition named_object :: "'f json \<Rightarrow> bool" where
  \<comment> \<open>an object whose name, if it has one, is a string\<close>
  "named_object v =
     (case v of
        JDict d \<Rightarrow> (case map_of d ''name'' of None \<Rightarrow> True | Some (JStr _) \<Rightarrow> True | Some _ \<Rightarrow> False)
      | _ \<Rightarrow> False)"

definition well_shaped :: "'f json \<Rightarrow> bool" where
  \<comment> \<open>the values on which the converter neither raises nor lets a structure through: the name
      of a relationship object is a string or a number, and a list that starts with an
      object holds objects only, their names strings\<close>
  "well_shaped v =
     (case v of
        JDict d \<Rightarrow> (case map_of d ''name'' of None \<Rightarrow> True | Some n \<Rightarrow> scalar n)
      | JList xs \<Rightarrow>
          (case xs of
             JDict _ # _ \<Rightarrow> list_all named_object xs
           | _ \<Rightarrow> True)
      | _ \<Rightarrow> True)"

section \<open>Sample surroundings for the examples\<close>

text \<open>
  A float is given here by a mantissa and a binary exponent, so that \<open>(85, - 1)\<close> is 42.5;
  the sample interpreter knows the one float literal the examples use, and of the strings
  that are not ASCII it folds the two the examples use: the bytes C3 89 are a capital E
  with acute accent and C3 A9 the small one, E2 84 AA is the Kelvin sign, whose lower case
  is k. The sample base
  accepts every table and field; it turns down an insert of exactly ten records, as a
  closed choice list would, and answers any other insert with one created record per
  record sent.
\<close>

definition demo_env :: "(int \<times> int) builtins" where
  "demo_env =
     \<lparr>float_of_str = (\<lambda>s. if s = ''42.5'' then Some (85, - 1) else None),
      str_of_float = (\<lambda>x. ''42.5''),
      float_nonzero = (\<lambda>x. fst x \<noteq> 0),
      repr_of = (\<lambda>v. ''{}''),
      int_max_str_digits = 4300,
      str_lower = (\<lambda>s. if s = [CHR 0xC3, CHR 0x89] @ ''TAT'' then [CHR 0xC3, CHR 0xA9] @ ''tat''
                       else if s = ''pic'' @ [CHR 0xE2, CHR 0x84, CHR 0xAA] @ ''list''
                       then ''picklist'' else s),
      str_strip = (\<lambda>s. s),
      int_of_str = (\<lambda>s. None),
      str_chars = (\<lambda>s. [s])\<rparr>"

definition demo_records :: "string \<Rightarrow> (int \<times> int) json list" where
  "demo_records m =
     (if m = ''Deals''
      then map (\<lambda>n. JDict [(''Name'', JStr n)])
             [''a'', ''b'', ''c'', ''d'', ''e'', ''f'', ''g'', ''h'', ''i'', ''j'', ''k'']
      else [JDict [(''Name'', JStr ''Ann'')]])"

definition demo_services :: "(int \<times> int) services" where
  "demo_services =
     \<lparr>get_module_fields = (\<lambda>w m. []),
      get_all_records = (\<lambda>w m. Inr (demo_records m)),
      post_table = (\<lambda>w m. True),
      post_field = (\<lambda>w t n cfg. Created),
      batch_create = (\<lambda>w t batch_data.
         if length batch_data = 10 then Inl APIError
         else Inr (map (\<lambda>r. JDict [(''id'', JStr ''rec''), (''fields'', r)]) batch_data))\<rparr>"

definition demo_world :: world where
  "demo_world =
     \<lparr>tables = [(''Leads'', [''Name'']), (''Deals'', [''Name''])], requests = [], console = []\<rparr>"

definition email_world :: world where
  "email_world =
     \<lparr>tables = [(''Leads'', [''Name'', ''email'', [CHR 0xC3, CHR 0xA9] @ ''tat''])],
      requests = [], console = []\<rparr>"

section \<open>Verified properties\<close>

lemmas eval_defs =
  dict_get_def dict_has_def clean_name_def startswith_dollar_def lstrip_dollar_def
  lower_def lower_char_def type_mapping_def map_zoho_type_to_airtable_def select_options_def
  py_or_def convert_zoho_to_airtable_def convert_field_def blacklisted_fields_def
  field_blacklists_def expected_type_of_def is_numeric_type_def has_dot_or_e_def py_int_def
  int_ascii_def trim_def is_blank_def strip_def is_space_def is_digit_def digit_val_def
  ascii_def
subsection \<open>The end-to-end example\<close>

text \<open>
  C8. For the module Accounts with the fields Account\_Name (text) and Annual\_Revenue
  (currency), the type map is built as \<^verbatim>\<open>sync_module_recursive\<close> builds it, and the record
  \<^verbatim>\<open>{"Account_Name": "Acme", "Annual_Revenue": "1000000", "$locked_for_me": true}\<close> is
  converted with it to exactly
  \<^verbatim>\<open>{"Account_Name": "Acme", "Annual_Revenue": 1000000, "locked_for_me": "Yes"}\<close>,
  whatever the interpreter does with floats.
\<close>

theorem accounts_end_to_end:
  "build_field_type_map env
     [JDict [(''api_name'', JStr ''Account_Name''), (''data_type'', JStr ''text'')],
      JDict [(''api_name'', JStr ''Annual_Revenue''), (''data_type'', JStr ''currency'')]] []
   = Inr [(''Account_Name'', [(''type'', JStr ''singleLineText'')]),
          (''Annual_Revenue'', [(''type'', JStr ''currency''),
             (''options'', JDict [(''precision'', JInt 2), (''symbol'', JStr ''$'')])])]
   \<and> convert_zoho_to_airtable env
       [JDict [(''Account_Name'', JStr ''Acme''), (''Annual_Revenue'', JStr ''1000000''),
               (''$locked_for_me'', JBool True)]]
       [(''Account_Name'', [(''type'', JStr ''singleLineText'')]),
        (''Annual_Revenue'', [(''type'', JStr ''currency''),
           (''options'', JDict [(''precision'', JInt 2), (''symbol'', JStr ''$'')])])]
       (Some ''Accounts'')
   = Inr [JDict [(''fields'', JDict [(''Account_Name'', JStr ''Acme''),
                   (''Annual_Revenue'', JInt 1000000), (''locked_for_me'', JStr ''Yes'')])]]"
  by (simp add: eval_defs)
subsection \<open>Where the converter raises or lets a null through\<close>

text \<open>
  C1. The claim that conversion never raises fails on the code. A list whose first element
  is an object and whose second is a string makes \<^verbatim>\<open>v.get\<close> raise AttributeError, and a
  list of objects one of whose names is null makes \<^verbatim>\<open>', '.join\<close> raise TypeError; no
  handler stands between these and the caller.
\<close>

theorem convert_raises_on_mixed_list:
  "convert_zoho_to_airtable env
     [JDict [(''Tags'', JList [JDict [(''name'', JStr ''A'')], JStr ''x''])]] ftm (Some ''Leads'')
   = Inl AttributeError
   \<and> convert_zoho_to_airtable env
       [JDict [(''Tags'', JList [JDict [(''name'', JNull)]])]] ftm (Some ''Leads'')
   = Inl TypeError"
  by (simp add: eval_defs)

text \<open>
  C4. The claim that only strings and numbers survive fails on the code: the name of a
  relationship object is stored as it is, so a null name comes out as a null value.
\<close>

theorem convert_keeps_null_name:
  "convert_zoho_to_airtable env
     [JDict [(''Owner'', JDict [(''name'', JNull), (''id'', JStr ''42'')])]] ftm (Some ''Leads'')
   = Inr [JDict [(''fields'', JDict [(''Owner'', JNull)])]]"
  by (simp add: eval_defs)

subsection \<open>Type Mapper: choices and the known-type table\<close>

lemma collect_choices_eq:
  "collect_choices env items acc =
     acc @ map (\<lambda>v. JDict [(''name'', v)]) (List.map_filter (choice_value env) items)"
proof (induction items arbitrary: acc)
  case Nil
  then show ?case by (simp add: List.map_filter_simps)
next
  case (Cons item items)
  show ?case
    by (cases item)
       (simp_all add: Cons.IH List.map_filter_simps choice_value_def py_or_def Let_def)
qed

lemma spec_choices_nonempty: "spec_choices env items \<noteq> []"
  by (simp add: spec_choices_def Let_def)

lemma select_options_list:
  assumes "map_of zf ''pick_list_values'' = Some (JList items)
           \<or> (map_of zf ''pick_list_values'' = None \<and> items = [])"
  shows "select_options env zf = Inr (JDict [(''choices'', JList (spec_choices env items))])"
  using assms
  by (auto simp add: select_options_def dict_has_def dict_get_def collect_choices_eq
        spec_choices_def Let_def List.map_filter_simps)

lemma map_select:
  assumes "dict_get zf ''data_type'' (JStr ''text'') = JStr s"
      and "map_of select_type_table (lower env s) = Some t"
      and "map_of zf ''pick_list_values'' = Some (JList items)
           \<or> (map_of zf ''pick_list_values'' = None \<and> items = [])"
  shows "map_zoho_type_to_airtable env zf =
           Inr [(''type'', JStr t),
                (''options'', JDict [(''choices'', JList (spec_choices env items))])]"
  using assms(1,2) select_options_list[OF assms(3), of env]
  by (auto simp add: map_zoho_type_to_airtable_def type_mapping_def dict_get_def
        select_type_table_def split: if_splits)

lemma map_known:
  assumes "dict_get zf ''data_type'' (JStr ''text'') = JStr s"
      and "map_of known_type_table (lower env s) = Some row"
  shows "map_zoho_type_to_airtable env zf = Inr row"
  using assms
  by (auto simp add: map_zoho_type_to_airtable_def type_mapping_def dict_get_def
        known_type_table_def iso_date_def split: if_splits)

lemma map_unknown:
  assumes "dict_get zf ''data_type'' (JStr ''text'') = JStr s"
      and "map_of known_type_table (lower env s) = (None :: 'f dict option)"
      and "map_of select_type_table (lower env s) = None"
  shows "map_zoho_type_to_airtable (env :: 'f builtins) zf = Inr [(''type'', JStr ''singleLineText'')]"
  using assms
  by (auto simp add: map_zoho_type_to_airtable_def type_mapping_def dict_get_def
        known_type_table_def select_type_table_def split: if_splits)

text \<open>
  C2, as the claim states it, fails: the choices are not deduplicated. A picklist whose
  choice values are \<^verbatim>\<open>["A", "A"]\<close> gets the choice A twice.
\<close>

theorem picklist_choices_counterexample:
  "map_zoho_type_to_airtable demo_env
     [(''data_type'', JStr ''picklist''), (''pick_list_values'', JList [JStr ''A'', JStr ''A''])]
   = Inr [(''type'', JStr ''singleSelect''),
          (''options'', JDict [(''choices'',
             JList [JDict [(''name'', JStr ''A'')], JDict [(''name'', JStr ''A'')]])])]"
  by (simp add: eval_defs)

text \<open>
  C2, amended. For a descriptor whose data type is picklist or multiselectpicklist (up to
  case) and whose choice values are a list, or missing, the produced choices are the choice
  values in source order, repetitions kept: a bare string gives itself, an object its
  display value if that is truthy, else its underlying value if that is truthy, any other
  entry is skipped; when nothing results the list is exactly \<^verbatim>\<open>[{name: "None"}]\<close>.
\<close>

theorem picklist_choices_in_source_order:
  assumes "dict_get zf ''data_type'' (JStr ''text'') = JStr s"
      and "lower env s = ''picklist'' \<or> lower env s = ''multiselectpicklist''"
      and "map_of zf ''pick_list_values'' = Some (JList items)
           \<or> (map_of zf ''pick_list_values'' = None \<and> items = [])"
  shows "map_zoho_type_to_airtable env zf =
           Inr [(''type'', JStr (if lower env s = ''picklist'' then ''singleSelect''
                                 else ''multipleSelects'')),
                (''options'', JDict [(''choices'', JList (spec_choices env items))])]"
proof -
  have "map_of select_type_table (lower env s) =
          Some (if lower env s = ''picklist'' then ''singleSelect'' else ''multipleSelects'')"
    using assms(2) by (auto simp add: select_type_table_def)
  from map_select[OF assms(1) this assms(3)] show ?thesis .
qed

theorem picklist_choices_witness:
  "map_zoho_type_to_airtable demo_env
     [(''data_type'', JStr ''PickList''),
      (''pick_list_values'',
         JList [JDict [(''display_value'', JStr ''Hot''), (''actual_value'', JStr ''H'')],
                JDict [(''display_value'', JStr ''''), (''actual_value'', JStr ''C'')],
                JStr ''Hot'', JInt 7, JDict [(''id'', JStr ''1'')]])]
   = Inr [(''type'', JStr ''singleSelect''),
          (''options'', JDict [(''choices'',
             JList [JDict [(''name'', JStr ''Hot'')], JDict [(''name'', JStr ''C'')],
                    JDict [(''name'', JStr ''Hot'')]])])]"
  using picklist_choices_in_source_order[where
      zf = "[(''data_type'', JStr ''PickList''),
        (''pick_list_values'',
           JList [JDict [(''display_value'', JStr ''Hot''), (''actual_value'', JStr ''H'')],
                  JDict [(''display_value'', JStr ''''), (''actual_value'', JStr ''C'')],
                  JStr ''Hot'', JInt 7, JDict [(''id'', JStr ''1'')]])]"
      and s = "''PickList''"
      and items = "[JDict [(''display_value'', JStr ''Hot''), (''actual_value'', JStr ''H'')],
        JDict [(''display_value'', JStr ''''), (''actual_value'', JStr ''C'')],
        JStr ''Hot'', JInt 7, JDict [(''id'', JStr ''1'')]]"
      and env = demo_env]
  by (simp add: dict_get_def lower_def ascii_def lower_char_def spec_choices_def
        choice_value_def List.map_filter_simps char_of_eq_iff)

text \<open>
  C3. On a field descriptor (the data type a string, or missing and then text; for the two
  picklist types the choice values a list, or missing) the Type Mapper returns a spec, and
  the spec is this: for a data type of the known-type table, matched without regard to
  case as \<^verbatim>\<open>str.lower\<close> folds it, the table's row, type and options; for picklist and
  multiselectpicklist the types singleSelect and multipleSelects with the choices built
  from the descriptor's choice values, in source order with repetitions kept, or the
  placeholder; for any other data type \<^verbatim>\<open>{type: singleLineText}\<close>.
\<close>

theorem map_zoho_type_total:
  assumes "dict_get zf ''data_type'' (JStr ''text'') = JStr s"
      and "map_of select_type_table (lower env s) = None
           \<or> map_of zf ''pick_list_values'' = Some (JList items)
           \<or> (map_of zf ''pick_list_values'' = None \<and> items = [])"
  shows "map_zoho_type_to_airtable env zf =
           Inr (case map_of known_type_table (lower env s) of
                  Some row \<Rightarrow> row
                | None \<Rightarrow>
                    (case map_of select_type_table (lower env s) of
                       Some t \<Rightarrow>
                         [(''type'', JStr t),
                          (''options'', JDict [(''choices'', JList (spec_choices env items))])]
                     | None \<Rightarrow> [(''type'', JStr ''singleLineText'')]))"
proof (cases "map_of known_type_table (lower env s) :: 'a dict option")
  case (Some row)
  with map_known[OF assms(1) Some] show ?thesis by simp
next
  case None
  show ?thesis
  proof (cases "map_of select_type_table (lower env s)")
    case (Some t)
    with assms(2) have "map_of zf ''pick_list_values'' = Some (JList items)
       \<or> (map_of zf ''pick_list_values'' = None \<and> items = [])"
      by simp
    from map_select[OF assms(1) Some this] None Some show ?thesis by simp
  next
    case no_select: None
    from map_unknown[OF assms(1) None no_select] None no_select
    show ?thesis by simp
  qed
qed

theorem map_zoho_type_total_witness:
  "dict_get [(''api_name'', JStr ''Closing''), (''data_type'', JStr ''DateTime'')]
       ''data_type'' (JStr ''text'') = (JStr ''DateTime'' :: (int \<times> int) json)
   \<and> map_of select_type_table (lower demo_env ''DateTime'') = None
   \<and> map_zoho_type_to_airtable demo_env
       [(''api_name'', JStr ''Closing''), (''data_type'', JStr ''DateTime'')]
     = Inr [(''type'', JStr ''dateTime''),
            (''options'', JDict
               [(''dateFormat'', JDict [(''name'', JStr ''iso''), (''format'', JStr ''YYYY-MM-DD'')]),
                (''timeFormat'', JDict [(''name'', JStr ''24hour''), (''format'', JStr ''HH:mm'')]),
                (''timeZone'', JStr ''utc'')])]
   \<and> lower demo_env (''pic'' @ [CHR 0xE2, CHR 0x84, CHR 0xAA] @ ''list'') = ''picklist''
   \<and> map_zoho_type_to_airtable demo_env
       [(''data_type'', JStr (''pic'' @ [CHR 0xE2, CHR 0x84, CHR 0xAA] @ ''list'')),
        (''pick_list_values'', JList [JStr ''Hot'', JDict [(''actual_value'', JStr ''Cold'')]])]
     = Inr [(''type'', JStr ''singleSelect''),
            (''options'', JDict [(''choices'',
               JList [JDict [(''name'', JStr ''Hot'')], JDict [(''name'', JStr ''Cold'')]])])]
   \<and> map_zoho_type_to_airtable demo_env [(''data_type'', JStr ''formula'')]
     = Inr [(''type'', JStr ''singleLineText'')]"
proof -
  have kelvin: "lower demo_env (''pic'' @ [CHR 0xE2, CHR 0x84, CHR 0xAA] @ ''list'') = ''picklist''"
    by (simp add: lower_def ascii_def demo_env_def)
  have plain: "lower demo_env ''DateTime'' = ''datetime''" "lower demo_env ''formula'' = ''formula''"
    by (simp_all add: lower_def ascii_def lower_char_def char_of_eq_iff)
  from map_zoho_type_total[where
      zf = "[(''api_name'', JStr ''Closing''), (''data_type'', JStr ''DateTime'')]"
      and s = "''DateTime''" and env = demo_env and items = "[]"]
  have one: "map_zoho_type_to_airtable demo_env
       [(''api_name'', JStr ''Closing''), (''data_type'', JStr ''DateTime'')]
     = Inr [(''type'', JStr ''dateTime''),
            (''options'', JDict
               [(''dateFormat'', JDict [(''name'', JStr ''iso''), (''format'', JStr ''YYYY-MM-DD'')]),
                (''timeFormat'', JDict [(''name'', JStr ''24hour''), (''format'', JStr ''HH:mm'')]),
                (''timeZone'', JStr ''utc'')])]"
    by (simp add: plain dict_get_def known_type_table_def iso_date_def select_type_table_def)
  from map_zoho_type_total[where
      zf = "[(''data_type'', JStr (''pic'' @ [CHR 0xE2, CHR 0x84, CHR 0xAA] @ ''list'')),
        (''pick_list_values'', JList [JStr ''Hot'', JDict [(''actual_value'', JStr ''Cold'')]])]"
      and s = "''pic'' @ [CHR 0xE2, CHR 0x84, CHR 0xAA] @ ''list''" and env = demo_env
      and items = "[JStr ''Hot'', JDict [(''actual_value'', JStr ''Cold'')]]"]
  have two: "map_zoho_type_to_airtable demo_env
       [(''data_type'', JStr (''pic'' @ [CHR 0xE2, CHR 0x84, CHR 0xAA] @ ''list'')),
        (''pick_list_values'', JList [JStr ''Hot'', JDict [(''actual_value'', JStr ''Cold'')]])]
     = Inr [(''type'', JStr ''singleSelect''),
            (''options'', JDict [(''choices'',
               JList [JDict [(''name'', JStr ''Hot'')], JDict [(''name'', JStr ''Cold'')]])])]"
    by (simp add: kelvin[simplified] dict_get_def known_type_table_def select_type_table_def
          spec_choices_def choice_value_def List.map_filter_simps)
  from map_zoho_type_total[where zf = "[(''data_type'', JStr ''formula'')]"
      and s = "''formula''" and env = demo_env and items = "[]"]
  have three: "map_zoho_type_to_airtable demo_env [(''data_type'', JStr ''formula'')]
     = Inr [(''type'', JStr ''singleLineText'')]"
    by (simp add: plain dict_get_def known_type_table_def select_type_table_def)
  from one two three kelvin plain show ?thesis
    by (simp add: dict_get_def select_type_table_def del: append.simps)
qed

subsection \<open>Value Converter: what one field becomes\<close>

lemma map_of_dict_set:
  "map_of (dict_set d k v) k' = (if k' = k then Some v else map_of d k')"
  by (induction d) auto

lemma convert_field_key:
  "convert_field env ftm bl key value = Inr (Some (k, v)) \<Longrightarrow> k = clean_name key"
  by (auto simp add: convert_field_def Let_def
      split: if_splits json.splits list.splits sum.splits option.splits)

lemma convert_items_other:
  assumes "convert_items env ftm bl items flds = Inr out"
      and "\<forall>kv \<in> set items. clean_name (fst kv) \<noteq> ck"
  shows "map_of out ck = map_of flds ck"
  using assms
proof (induction items arbitrary: flds)
  case Nil
  then show ?case by simp
next
  case (Cons kv items)
  obtain key val where kv: "kv = (key, val)" by (cases kv)
  show ?case
  proof (cases "convert_field env ftm bl key val")
    case (Inl e)
    with Cons.prems kv show ?thesis by simp
  next
    case (Inr res)
    show ?thesis
    proof (cases res)
      case None
      with Cons Inr kv show ?thesis by simp
    next
      case (Some p)
      obtain k v where p: "p = (k, v)" by (cases p)
      from Inr Some p have "k = clean_name key" by (auto dest: convert_field_key)
      with Cons.prems kv have "k \<noteq> ck" by auto
      from Cons.prems Inr Some p kv
      have "convert_items env ftm bl items (dict_set flds k v) = Inr out" by simp
      from Cons.IH[OF this] Cons.prems(2) \<open>k \<noteq> ck\<close>
      show ?thesis by (simp add: map_of_dict_set)
    qed
  qed
qed

lemma convert_items_append:
  "convert_items env ftm bl (xs @ ys) flds =
     (case convert_items env ftm bl xs flds of
        Inl e \<Rightarrow> Inl e
      | Inr f \<Rightarrow> convert_items env ftm bl ys f)"
  by (induction xs arbitrary: flds) (auto split: sum.splits option.splits)

lemma lower_char_e: "lower_char c = CHR ''e'' \<longleftrightarrow> c = CHR ''e'' \<or> c = CHR ''E''"
proof -
  have "c = CHR ''E''" if "65 \<le> (of_char c :: nat)" "(of_char c :: nat) \<le> 90"
    "char_of ((of_char c :: nat) + 32) = CHR ''e''"
  proof -
    from that have "(of_char c :: nat) = 69" by (simp add: char_of_eq_iff take_bit_eq_mod)
    then have "char_of (of_char c :: nat) = (char_of (69 :: nat) :: char)" by simp
    then show ?thesis by (simp add: char_of_eq_iff)
  qed
  then show ?thesis
    by (auto simp add: lower_char_def Let_def char_of_eq_iff)
qed

lemma exponent_marker_ascii:
  assumes "ascii s"
  shows "exponent_marker env s \<longleftrightarrow> CHR ''e'' \<in> set s \<or> CHR ''E'' \<in> set s"
proof -
  have "CHR ''e'' \<in> set (map lower_char s) \<longleftrightarrow> (\<exists>c \<in> set s. lower_char c = CHR ''e'')"
    by (simp add: image_iff) (metis)
  with assms show ?thesis
    by (auto simp add: exponent_marker_def lower_def lower_char_e)
qed

lemma convert_field_string:
  assumes "key \<notin> set bl"
  shows "convert_field env ftm bl key (JStr s) =
           Inr (map_option (Pair (clean_name key))
                  (if expected_type_of ftm (clean_name key) = JStr ''number''
                      \<or> expected_type_of ftm (clean_name key) = JStr ''currency''
                   then parse_number env s else Some (JStr s)))"
  using assms
  by (auto simp add: convert_field_def Let_def is_numeric_type_def parse_number_def
        has_dot_or_e_def exponent_marker_def split: option.splits)

lemma convert_records_nth:
  assumes "convert_records env ftm bl recs acc = Inr out"
  shows "\<exists>rest. out = acc @ rest \<and> length rest = length recs \<and>
           (\<forall>r items. r < length recs \<and> recs ! r = JDict items \<longrightarrow>
              (\<exists>flds. convert_items env ftm bl items [] = Inr flds
                      \<and> rest ! r = JDict [(''fields'', JDict flds)]))"
  using assms
proof (induction recs arbitrary: acc)
  case Nil
  then show ?case by simp
next
  case (Cons rec recs)
  from Cons.prems obtain items0 where rec: "rec = JDict items0"
    by (cases rec) auto
  from Cons.prems rec obtain f0 where f0: "convert_items env ftm bl items0 [] = Inr f0"
    by (cases "convert_items env ftm bl items0 []") auto
  from Cons.prems rec f0
  have "convert_records env ftm bl recs (acc @ [JDict [(''fields'', JDict f0)]]) = Inr out"
    by simp
  from Cons.IH[OF this] obtain rest where rest:
    "out = (acc @ [JDict [(''fields'', JDict f0)]]) @ rest" "length rest = length recs"
    "\<forall>r items. r < length recs \<and> recs ! r = JDict items \<longrightarrow>
       (\<exists>flds. convert_items env ftm bl items [] = Inr flds
               \<and> rest ! r = JDict [(''fields'', JDict flds)])"
    by blast
  have "\<exists>flds. convert_items env ftm bl items [] = Inr flds
               \<and> (JDict [(''fields'', JDict f0)] # rest) ! r = JDict [(''fields'', JDict flds)]"
    if "r < length (rec # recs)" "(rec # recs) ! r = JDict items" for r items
  proof (cases r)
    case 0
    with that rec f0 show ?thesis by simp
  next
    case (Suc r')
    with that rest(3) show ?thesis by simp
  qed
  with rest(1,2) show ?case
    by (intro exI[of _ "JDict [(''fields'', JDict f0)] # rest"]) simp
qed

lemma string_field_lookup:
  assumes conv: "convert_zoho_to_airtable env records ftm module_name = Inr out"
      and r: "r < length records" "records ! r = JDict items"
      and i: "i < length items" "items ! i = (key, JStr s)"
      and bl: "key \<notin> set (blacklisted_fields module_name)"
      and uniq: "\<forall>j<length items. j \<noteq> i \<longrightarrow> clean_name (fst (items ! j)) \<noteq> clean_name key"
  shows "\<exists>flds. out ! r = JDict [(''fields'', JDict flds)] \<and>
           map_of flds (clean_name key) =
             (if expected_type_of ftm (clean_name key) = JStr ''number''
                 \<or> expected_type_of ftm (clean_name key) = JStr ''currency''
              then parse_number env s else Some (JStr s))"
proof -
  let ?bl = "blacklisted_fields module_name"
  let ?ck = "clean_name key"
  let ?res = "if expected_type_of ftm ?ck = JStr ''number''
                 \<or> expected_type_of ftm ?ck = JStr ''currency''
              then parse_number env s else Some (JStr s)"
  from conv have "convert_records env ftm ?bl records [] = Inr out"
    by (simp add: convert_zoho_to_airtable_def)
  from convert_records_nth[OF this] r obtain flds where
    flds: "convert_items env ftm ?bl items [] = Inr flds"
    and out: "out ! r = JDict [(''fields'', JDict flds)]"
    by auto
  let ?pre = "take i items" and ?post = "drop (Suc i) items"
  from i have split: "items = ?pre @ (key, JStr s) # ?post"
    by (metis id_take_nth_drop)
  have pre_other: "\<forall>kv \<in> set ?pre. clean_name (fst kv) \<noteq> ?ck"
  proof
    fix kv assume "kv \<in> set ?pre"
    then obtain j where "j < length ?pre" "?pre ! j = kv" by (auto simp add: in_set_conv_nth)
    with i uniq show "clean_name (fst kv) \<noteq> ?ck" by auto
  qed
  have post_other: "\<forall>kv \<in> set ?post. clean_name (fst kv) \<noteq> ?ck"
  proof
    fix kv assume "kv \<in> set ?post"
    then obtain j where j: "j < length ?post" "?post ! j = kv" by (auto simp add: in_set_conv_nth)
    then have "items ! (Suc i + j) = kv" "Suc i + j < length items" by auto
    with uniq show "clean_name (fst kv) \<noteq> ?ck" by (metis Suc_n_not_le_n le_add1 add_Suc)
  qed
  from flds split
  have "convert_items env ftm ?bl (?pre @ (key, JStr s) # ?post) [] = Inr flds" by simp
  then obtain f1 where f1: "convert_items env ftm ?bl ?pre [] = Inr f1"
    and rest: "convert_items env ftm ?bl ((key, JStr s) # ?post) f1 = Inr flds"
    by (auto simp add: convert_items_append split: sum.splits)
  from convert_items_other[OF f1 pre_other] have f1_none: "map_of f1 ?ck = None" by simp
  show ?thesis
  proof (cases ?res)
    case None
    with rest bl have "convert_items env ftm ?bl ?post f1 = Inr flds"
      by (simp add: convert_field_string)
    from convert_items_other[OF this post_other] f1_none None out show ?thesis by simp
  next
    case (Some v)
    with rest bl have "convert_items env ftm ?bl ?post (dict_set f1 ?ck v) = Inr flds"
      by (simp add: convert_field_string)
    from convert_items_other[OF this post_other] Some out show ?thesis
      by (simp add: map_of_dict_set)
  qed
qed

lemma digit_char_digit:
  assumes "k < 10"
  shows "is_digit (digit_char k)" and "digit_val (digit_char k) = k"
    and "(of_char (digit_char k) :: nat) = 48 + k"
  using assms by (simp_all add: is_digit_def digit_val_def digit_char_def)

lemma str_nat_digits: "str_nat n \<noteq> [] \<and> list_all is_digit (str_nat n)"
proof (induction n rule: str_nat.induct)
  case (1 n)
  show ?case
  proof (cases "n < 10")
    case True
    then show ?thesis by (simp add: str_nat.simps[of n] digit_char_digit)
  next
    case False
    with 1 show ?thesis by (simp add: str_nat.simps[of n] digit_char_digit)
  qed
qed

lemma int_digits_all:
  "list_all is_digit ds \<Longrightarrow>
     int_digits ds acc = Some (foldl (\<lambda>a c. 10 * a + digit_val c) acc ds)"
  by (induction ds arbitrary: acc) simp_all

lemma foldl_str_nat: "foldl (\<lambda>a c. 10 * a + digit_val c) 0 (str_nat n) = n"
proof (induction n rule: str_nat.induct)
  case (1 n)
  show ?case
  proof (cases "n < 10")
    case True
    then show ?thesis by (simp add: str_nat.simps[of n] digit_char_digit)
  next
    case False
    with 1 show ?thesis by (simp add: str_nat.simps[of n] digit_char_digit)
  qed
qed

lemma is_digit_facts:
  assumes "is_digit c"
  shows "\<not> is_blank c" and "(of_char c :: nat) < 128" and "c \<noteq> CHR ''-''" and "c \<noteq> CHR ''+''"
  using assms by (auto simp add: is_digit_def is_blank_def Let_def)

lemma is_blank_ascii: "is_blank c \<Longrightarrow> (of_char c :: nat) < 128"
  by (auto simp add: is_blank_def Let_def)

lemma trim_padded:
  assumes "list_all is_blank left" and "list_all is_blank right"
      and "d \<noteq> []" and "\<not> is_blank (hd d)" and "\<not> is_blank (last d)"
  shows "trim (left @ d @ right) = d"
proof -
  from assms(3) obtain x d' where d: "d = x # d'" by (cases d) auto
  from assms(1) have "dropWhile is_blank (left @ d @ right) = dropWhile is_blank (d @ right)"
    by (intro dropWhile_append2) (simp add: list_all_iff)
  also from d assms(4) have "\<dots> = d @ right" by simp
  finally have front: "dropWhile is_blank (left @ d @ right) = d @ right" .
  have "dropWhile is_blank (rev d) = rev d"
  proof (cases "rev d")
    case Nil
    with assms(3) show ?thesis by simp
  next
    case (Cons y e)
    with hd_rev[of d] assms(3) have "y = last d" by simp
    with assms(5) have "\<not> is_blank y" by simp
    then have "dropWhile is_blank (y # e) = y # e" by simp
    with Cons show ?thesis by simp
  qed
  moreover from assms(2)
  have "dropWhile is_blank (rev right @ rev d) = dropWhile is_blank (rev d)"
    by (intro dropWhile_append2) (simp add: list_all_iff)
  ultimately show ?thesis
    by (simp add: trim_def front)
qed

lemma int_ascii_digits:
  assumes "list_all is_blank left" and "list_all is_blank right"
      and "within_digit_limit env (length (str_nat m))"
  shows "int_ascii env (left @ str_nat m @ right) = Some (int m)"
    and "int_ascii env (left @ CHR ''-'' # str_nat m @ right) = Some (- int m)"
proof -
  from str_nat_digits[of m] obtain c cs where ds: "str_nat m = c # cs"
    and all: "list_all is_digit (c # cs)"
    by (cases "str_nat m") auto
  from all have c: "is_digit c" by simp
  have last_digit: "is_digit (last (c # cs))"
    using all by (metis last_in_set list.distinct(1) list_all_iff)
  have parsed: "int_digits cs (digit_val c) = Some m"
  proof -
    from all have "int_digits cs (digit_val c)
        = Some (foldl (\<lambda>a c. 10 * a + digit_val c) (digit_val c) cs)"
      by (intro int_digits_all) simp
    also have "\<dots> = Some (foldl (\<lambda>a c. 10 * a + digit_val c) 0 (c # cs))" by simp
    also have "\<dots> = Some m" using foldl_str_nat[of m] ds by simp
    finally show ?thesis .
  qed
  have count: "filter is_digit (c # cs) = c # cs"
    using all by (simp add: list_all_iff)
  have limit: "\<not> (640 < length (c # cs) \<and> 0 < int_max_str_digits env
                   \<and> int_max_str_digits env < length (c # cs))"
    using assms(3) ds by (auto simp add: within_digit_limit_def)
  have nb: "\<not> is_blank c" "\<not> is_blank (last (c # cs))"
    using c last_digit by (simp_all only: is_digit_facts(1) not_False_eq_True)
  have "trim (left @ (c # cs) @ right) = c # cs"
  proof (rule trim_padded[OF assms(1,2)])
    show "c # cs \<noteq> []" by simp
    show "\<not> is_blank (hd (c # cs))" using nb(1) by simp
    show "\<not> is_blank (last (c # cs))" by (rule nb(2))
  qed
  then show "int_ascii env (left @ str_nat m @ right) = Some (int m)"
    using c parsed limit count ds
    by (simp add: int_ascii_def Let_def is_digit_facts del: length_Cons filter.simps)
  have "trim (left @ (CHR ''-'' # c # cs) @ right) = CHR ''-'' # c # cs"
  proof (rule trim_padded[OF assms(1,2)])
    show "CHR ''-'' # c # cs \<noteq> []" by simp
    show "\<not> is_blank (hd (CHR ''-'' # c # cs))" by (simp add: is_blank_def)
    show "\<not> is_blank (last (CHR ''-'' # c # cs))" using nb(2) by simp
  qed
  then show "int_ascii env (left @ CHR ''-'' # str_nat m @ right) = Some (- int m)"
    using c parsed limit count ds
    by (simp add: int_ascii_def Let_def del: length_Cons filter.simps)
qed

lemma ascii_append: "ascii (xs @ ys) \<longleftrightarrow> ascii xs \<and> ascii ys"
  by (simp add: ascii_def)

lemma ascii_blanks: "list_all is_blank ws \<Longrightarrow> ascii ws"
  by (induction ws) (simp_all add: ascii_def is_blank_ascii)

lemma ascii_str_int: "ascii (str_int n)"
proof -
  have digits: "list_all is_digit xs \<Longrightarrow> ascii xs" for xs
    by (induction xs) (simp_all add: ascii_def is_digit_facts(2))
  have "ascii (str_nat m)" for m
    using str_nat_digits[of m] by (simp add: digits)
  then show ?thesis by (simp add: str_int_def ascii_def)
qed

lemma py_int_decimal:
  assumes "list_all is_blank left" and "list_all is_blank right"
      and "within_digit_limit env (length (str_nat (nat \<bar>n\<bar>)))"
  shows "py_int env (left @ str_int n @ right) = Some n"
proof -
  have "ascii (left @ str_int n @ right)"
    using assms(1,2) by (simp add: ascii_append ascii_blanks ascii_str_int)
  moreover have "int_ascii env (left @ str_int n @ right) = Some n"
  proof (cases "n < 0")
    case True
    then have m: "nat \<bar>n\<bar> = nat (- n)" by simp
    from assms(3) have "within_digit_limit env (length (str_nat (nat (- n))))"
      unfolding m .
    from int_ascii_digits(2)[OF assms(1,2) this] True
    show ?thesis by (simp add: str_int_def)
  next
    case False
    then have m: "nat \<bar>n\<bar> = nat n" by simp
    from assms(3) have "within_digit_limit env (length (str_nat (nat n)))"
      unfolding m .
    from int_ascii_digits(1)[OF assms(1,2) this] False
    show ?thesis by (simp add: str_int_def)
  qed
  ultimately show ?thesis by (simp add: py_int_def)
qed

lemma dropWhile_keeps:
  assumes "c \<in> set s" and "\<not> P c"
  shows "c \<in> set (dropWhile P s)"
  using assms by (induction s) auto

lemma trim_keeps:
  assumes "c \<in> set s" and "\<not> is_blank c"
  shows "c \<in> set (trim s)"
proof -
  from dropWhile_keeps[of c s is_blank] assms
  have "c \<in> set (rev (dropWhile is_blank s))" by simp
  from dropWhile_keeps[of c "rev (dropWhile is_blank s)" is_blank] this assms(2)
  show ?thesis by (simp add: trim_def)
qed

lemma int_digits_bad_char:
  assumes "c \<in> set ds" and "\<not> is_digit c" and "c \<noteq> CHR ''_''"
  shows "int_digits ds acc = None"
  using assms(1)
proof (induction ds acc rule: int_digits.induct)
  case (1 acc)
  then show ?case by simp
next
  case (2 x xs acc)
  show ?case
  proof (cases "is_digit x")
    case True
    with 2 assms(2) show ?thesis by auto
  next
    case False
    show ?thesis
    proof (cases "x = CHR ''_''")
      case under: True
      show ?thesis
      proof (cases xs)
        case Nil
        with False under show ?thesis by simp
      next
        case (Cons d ds')
        show ?thesis
        proof (cases "is_digit d")
          case True
          with 2 False under Cons assms(2,3) show ?thesis by auto
        next
          case no: False
          with False under Cons show ?thesis by simp
        qed
      qed
    next
      case other: False
      with False show ?thesis by simp
    qed
  qed
qed

lemma py_int_bad_char:
  assumes "ascii s" and "c \<in> set s" and "\<not> is_digit c" and "\<not> is_blank c"
      and "c \<notin> set ''+-_''"
  shows "py_int env s = None"
proof -
  from trim_keeps[OF assms(2,4)] have in_t: "c \<in> set (trim s)" .
  then obtain t0 ts where t: "trim s = t0 # ts" by (cases "trim s") auto
  let ?body = "if t0 = CHR ''-'' \<or> t0 = CHR ''+'' then ts else t0 # ts"
  from in_t t assms(5) have "c \<in> set ?body" by auto
  then obtain b bs where body: "?body = b # bs" by (cases ?body) auto
  have "int_ascii env s = None"
  proof (cases "is_digit b")
    case False
    with t body show ?thesis by (simp add: int_ascii_def Let_def)
  next
    case True
    with \<open>c \<in> set ?body\<close> body assms(3) have "c \<in> set bs" by auto
    from int_digits_bad_char[OF this assms(3)] assms(5)
    have "int_digits bs (digit_val b) = None" by simp
    with t body True show ?thesis by (simp add: int_ascii_def Let_def)
  qed
  with assms(1) show ?thesis by (simp add: py_int_def)
qed

lemma decimal_chars:
  assumes "list_all is_blank left" and "list_all is_blank right"
      and "c \<in> set (left @ str_int n @ right)"
  shows "is_digit c \<or> c = CHR ''-'' \<or> is_blank c"
proof -
  have "is_digit c" if "c \<in> set (str_nat m)" for m
    using that str_nat_digits[of m] by (simp add: list_all_iff)
  then have "is_digit c \<or> c = CHR ''-''" if "c \<in> set (str_int n)"
    using that by (auto simp add: str_int_def split: if_splits)
  with assms show ?thesis by (auto simp add: list_all_iff)
qed

lemma parse_number_decimal:
  assumes "list_all is_blank left" and "list_all is_blank right"
      and "within_digit_limit env (length (str_nat (nat \<bar>n\<bar>)))"
  shows "parse_number env (left @ str_int n @ right) = Some (JInt n)"
proof -
  let ?s = "left @ str_int n @ right"
  have ascii: "ascii ?s"
    using assms(1,2) by (simp add: ascii_append ascii_blanks ascii_str_int)
  have none: "c \<notin> set ?s" if "\<not> is_digit c" "c \<noteq> CHR ''-''" "\<not> is_blank c" for c
    using that decimal_chars[OF assms(1,2), of c n] by blast
  have "CHR ''.'' \<notin> set ?s" "CHR ''e'' \<notin> set ?s" "CHR ''E'' \<notin> set ?s"
    by (rule none; simp add: is_digit_def is_blank_def)+
  with exponent_marker_ascii[OF ascii, of env] py_int_decimal[OF assms]
  show ?thesis by (simp add: parse_number_def)
qed

lemma parse_number_bad_char:
  assumes "ascii s" and "CHR ''.'' \<notin> set s" and "CHR ''e'' \<notin> set s" and "CHR ''E'' \<notin> set s"
      and "c \<in> set s" and "\<not> is_digit c" and "\<not> is_blank c" and "c \<notin> set ''+-_''"
  shows "parse_number env s = None"
  using exponent_marker_ascii[OF assms(1), of env] assms(2,3,4)
        py_int_bad_char[OF assms(1,5,6,7,8), of env]
  by (simp add: parse_number_def)

text \<open>
  C5. Whenever conversion of the records returns, a string-valued field of a record that is
  not blacklisted, and whose destination key no other field of the record shares, comes out
  as follows: if the expected destination type is number or currency, the string is parsed,
  as a float when it contains a dot or an exponent marker and as an integer otherwise,
  and the parsed number is stored, the key being left out when the parse fails; for every
  other expected type the string is stored unchanged. What the integer parse gives is
  fixed: the decimal text of an integer, blanks around it allowed, gives that integer
  (within the interpreter's limit on digits), and an ASCII string without a dot or an e
  that holds a character other than a digit, a blank, a sign or an underscore fails, which
  leaves the field out. On an ASCII string the exponent marker is the letter e or E.
\<close>

theorem string_field_conversion:
  assumes conv: "convert_zoho_to_airtable env records ftm module_name = Inr out"
      and r: "r < length records" "records ! r = JDict items"
      and i: "i < length items" "items ! i = (key, JStr s)"
      and bl: "key \<notin> set (blacklisted_fields module_name)"
      and uniq: "\<forall>j<length items. j \<noteq> i \<longrightarrow> clean_name (fst (items ! j)) \<noteq> clean_name key"
  shows "(\<exists>flds. out ! r = JDict [(''fields'', JDict flds)] \<and>
            map_of flds (clean_name key) =
              (if expected_type_of ftm (clean_name key) = JStr ''number''
                  \<or> expected_type_of ftm (clean_name key) = JStr ''currency''
               then parse_number env s else Some (JStr s)))
         \<and> (\<forall>left n right.
               s = left @ str_int n @ right \<and> list_all is_blank left \<and> list_all is_blank right
               \<and> within_digit_limit env (length (str_nat (nat \<bar>n\<bar>))) \<longrightarrow>
               parse_number env s = Some (JInt n))
         \<and> (ascii s \<and> CHR ''.'' \<notin> set s \<and> CHR ''e'' \<notin> set s \<and> CHR ''E'' \<notin> set s
               \<and> (\<exists>c \<in> set s. \<not> is_digit c \<and> \<not> is_blank c \<and> c \<notin> set ''+-_'') \<longrightarrow>
               parse_number env s = None)
         \<and> (ascii s \<longrightarrow>
               exponent_marker env s = (CHR ''e'' \<in> set s \<or> CHR ''E'' \<in> set s))"
proof (intro conjI allI impI)
  show "\<exists>flds. out ! r = JDict [(''fields'', JDict flds)] \<and>
            map_of flds (clean_name key) =
              (if expected_type_of ftm (clean_name key) = JStr ''number''
                  \<or> expected_type_of ftm (clean_name key) = JStr ''currency''
               then parse_number env s else Some (JStr s))"
    by (rule string_field_lookup[OF conv r i bl uniq])
next
  fix left n right
  assume "s = left @ str_int n @ right \<and> list_all is_blank left \<and> list_all is_blank right
               \<and> within_digit_limit env (length (str_nat (nat \<bar>n\<bar>)))"
  then show "parse_number env s = Some (JInt n)"
    by (simp add: parse_number_decimal)
next
  assume "ascii s \<and> CHR ''.'' \<notin> set s \<and> CHR ''e'' \<notin> set s \<and> CHR ''E'' \<notin> set s
               \<and> (\<exists>c \<in> set s. \<not> is_digit c \<and> \<not> is_blank c \<and> c \<notin> set ''+-_'')"
  then show "parse_number env s = None"
    by (blast intro: parse_number_bad_char)
next
  assume "ascii s"
  then show "exponent_marker env s = (CHR ''e'' \<in> set s \<or> CHR ''E'' \<in> set s)"
    by (rule exponent_marker_ascii)
qed

theorem string_field_conversion_witness:
  "convert_zoho_to_airtable demo_env
     [JDict [(''Name'', JStr ''Acme''), (''Score'', JStr ''42.5''), (''Rank'', JStr ''abc''),
             (''Revenue'', JStr '' 1000000''), (''Code'', JStr [CHR 0x1C, CHR ''1''])]]
     [(''Score'', [(''type'', JStr ''number'')]), (''Rank'', [(''type'', JStr ''number'')]),
      (''Revenue'', [(''type'', JStr ''currency'')]), (''Code'', [(''type'', JStr ''number'')])]
     (Some ''Leads'')
   = Inr [JDict [(''fields'', JDict [(''Name'', JStr ''Acme''), (''Score'', JFloat (85, - 1)),
                   (''Revenue'', JInt 1000000)])]]
   \<and> ''Revenue'' \<notin> set (blacklisted_fields (Some ''Leads''))
   \<and> '' 1000000'' = '' '' @ str_int 1000000 @ ''''
   \<and> within_digit_limit demo_env (length (str_nat (nat \<bar>1000000\<bar>)))
   \<and> parse_number demo_env '' 1000000'' = Some (JInt 1000000)
   \<and> parse_number demo_env ''42.5'' = Some (JFloat (85, - 1))
   \<and> parse_number demo_env ''abc'' = None
   \<and> parse_number demo_env [CHR 0x1C, CHR ''1''] = None"
proof -
  let ?items = "[(''Name'', JStr ''Acme''), (''Score'', JStr ''42.5''), (''Rank'', JStr ''abc''),
             (''Revenue'', JStr '' 1000000''), (''Code'', JStr [CHR 0x1C, CHR ''1''])]
             :: (int \<times> int) dict"
  let ?ftm = "[(''Score'', [(''type'', JStr ''number'')]), (''Rank'', [(''type'', JStr ''number'')]),
      (''Revenue'', [(''type'', JStr ''currency'')]), (''Code'', [(''type'', JStr ''number'')])]
      :: (string \<times> (int \<times> int) dict) list"
  let ?out = "[JDict [(''fields'', JDict [(''Name'', JStr ''Acme''), (''Score'', JFloat (85, - 1)),
                   (''Revenue'', JInt 1000000)])]] :: (int \<times> int) json list"
  have conv: "convert_zoho_to_airtable demo_env [JDict ?items] ?ftm (Some ''Leads'') = Inr ?out"
    by (simp add: eval_defs demo_env_def)
  have bl: "k \<notin> set (blacklisted_fields (Some ''Leads''))"
    if "k \<in> set [''Revenue'', ''Rank'', ''Code'']" for k
    using that by (auto simp add: blacklisted_fields_def field_blacklists_def dict_get_def)
  have digits: "str_nat 1000000 = ''1000000''"
    by (simp add: str_nat.simps digit_char_def char_of_eq_iff)
  have shape: "'' 1000000'' = '' '' @ str_int 1000000 @ ''''"
    by (simp add: str_int_def digits)
  have limit: "within_digit_limit demo_env (length (str_nat (nat \<bar>1000000\<bar>)))"
    by (simp add: within_digit_limit_def digits)
  have blank: "list_all is_blank '' ''" "list_all is_blank ''''"
    by (simp_all add: is_blank_def)
  have revenue: "\<forall>j<length ?items. j \<noteq> 3 \<longrightarrow>
      clean_name (fst (?items ! j)) \<noteq> clean_name ''Revenue''"
    by (simp add: All_less_Suc clean_name_def startswith_dollar_def)
  have rank: "\<forall>j<length ?items. j \<noteq> 2 \<longrightarrow>
      clean_name (fst (?items ! j)) \<noteq> clean_name ''Rank''"
    by (simp add: All_less_Suc clean_name_def startswith_dollar_def)
  have code: "\<forall>j<length ?items. j \<noteq> 4 \<longrightarrow>
      clean_name (fst (?items ! j)) \<noteq> clean_name ''Code''"
    by (simp add: All_less_Suc clean_name_def startswith_dollar_def)
  from string_field_conversion[OF conv, of 0 ?items 3 "''Revenue''" "'' 1000000''",
         OF _ _ _ _ bl revenue]
  have "\<forall>left n right.
          '' 1000000'' = left @ str_int n @ right \<and> list_all is_blank left
          \<and> list_all is_blank right
          \<and> within_digit_limit demo_env (length (str_nat (nat \<bar>n\<bar>))) \<longrightarrow>
          parse_number demo_env '' 1000000'' = Some (JInt n)"
    by simp
  with shape limit blank have one: "parse_number demo_env '' 1000000'' = Some (JInt 1000000)"
    by blast
  from string_field_conversion[OF conv, of 0 ?items 2 "''Rank''" "''abc''",
         OF _ _ _ _ bl rank]
  have two: "parse_number demo_env ''abc'' = None"
    by (simp add: ascii_def is_digit_def is_blank_def)
  from string_field_conversion[OF conv, of 0 ?items 4 "''Code''" "[CHR 0x1C, CHR ''1'']",
         OF _ _ _ _ bl code]
  have three: "parse_number demo_env [CHR 0x1C, CHR ''1''] = None"
    by (simp add: ascii_def is_digit_def is_blank_def)
  have four: "parse_number demo_env ''42.5'' = Some (JFloat (85, - 1))"
    by (simp add: parse_number_def demo_env_def)
  from conv bl[of "''Revenue''"] shape limit one two three four show ?thesis
    by (simp del: append.simps)
qed

subsection \<open>Schema Reconciler\<close>

lemma select_new_fields_eq:
  "select_new_fields env ex defs acc =
     acc @ filter (\<lambda>d. lower env (fst d) \<notin> lower env ` set ex) defs"
  by (induction defs arbitrary: acc) (auto simp add: rev_image_eqI)

lemma create_field_requests:
  "set (requests (snd (create_field_if_not_exists env svc w t n c)))
     \<subseteq> insert (PostField t n) (set (requests w))"
  by (auto simp add: create_field_if_not_exists_def sent_def Let_def
      split: option.splits post_answer.splits)

lemma create_fields_requests:
  "set (requests (create_fields env svc w t cs))
     \<subseteq> set (requests w) \<union> PostField t ` fst ` set cs"
proof (induction cs arbitrary: w)
  case Nil
  then show ?case by simp
next
  case (Cons d cs)
  obtain n c where d: "d = (n, c)" by (cases d)
  from Cons.IH[of "snd (create_field_if_not_exists env svc w t n c)"]
       create_field_requests[of env svc w t n c] d
  show ?case by auto
qed

lemma add_field_lookup:
  "map_of ts t = Some fs \<Longrightarrow> map_of (add_field ts t n) t = Some (fs @ [n])"
  by (induction ts) (auto split: if_splits)

lemma create_fields_absent:
  "map_of (tables w) t = None \<Longrightarrow> create_fields env svc w t cs = w"
  by (induction cs arbitrary: w) (auto simp add: create_field_if_not_exists_def)

lemma create_field_present:
  assumes "\<And>w' m c'. post_field svc w' t m c' = Created"
      and "map_of (tables w) t = Some fs"
  shows "\<exists>fs'. map_of (tables (snd (create_field_if_not_exists env svc w t n c))) t = Some fs'
               \<and> set fs \<subseteq> set fs' \<and> lower env n \<in> lower env ` set fs'"
  using assms
  by (auto simp add: create_field_if_not_exists_def sent_def Let_def add_field_lookup)

lemma create_fields_present:
  assumes "\<And>w' m c'. post_field svc w' t m c' = Created"
      and "map_of (tables w) t = Some fs"
  shows "\<exists>fs'. map_of (tables (create_fields env svc w t cs)) t = Some fs'
               \<and> set fs \<subseteq> set fs' \<and> lower env ` fst ` set cs \<subseteq> lower env ` set fs'"
  using assms(2)
proof (induction cs arbitrary: w fs)
  case Nil
  then show ?case by simp
next
  case (Cons d cs)
  obtain n c where d: "d = (n, c)" by (cases d)
  let ?w1 = "snd (create_field_if_not_exists env svc w t n c)"
  from create_field_present[OF assms(1) Cons.prems, of env n c] obtain fs1 where
    fs1: "map_of (tables ?w1) t = Some fs1" "set fs \<subseteq> set fs1" "lower env n \<in> lower env ` set fs1"
    by blast
  from Cons.IH[OF fs1(1)] obtain fs' where
    fs': "map_of (tables (create_fields env svc ?w1 t cs)) t = Some fs'" "set fs1 \<subseteq> set fs'"
    "lower env ` fst ` set cs \<subseteq> lower env ` set fs'"
    by blast
  from fs1 fs' d show ?case by auto
qed

lemma reconcile_twice:
  assumes accept: "\<And>w' m c'. post_field svc w' t m c' = Created"
  shows "ensure_fields_exist env svc (ensure_fields_exist env svc w t defs) t defs
           = ensure_fields_exist env svc w t defs"
proof (cases "map_of (tables w) t")
  case None
  then have "ensure_fields_exist env svc w t defs = w"
    by (simp add: ensure_fields_exist_def Let_def create_fields_absent)
  then show ?thesis by simp
next
  case (Some fs)
  let ?new = "select_new_fields env (get_existing_fields w t) defs []"
  let ?w1 = "ensure_fields_exist env svc w t defs"
  have ex: "get_existing_fields w t = fs"
    using Some by (simp add: get_existing_fields_def dict_get_def)
  have "\<exists>fs'. map_of (tables ?w1) t = Some fs' \<and> set fs \<subseteq> set fs'
               \<and> lower env ` fst ` set ?new \<subseteq> lower env ` set fs'"
  proof (cases "?new = []")
    case True
    with Some show ?thesis by (simp add: ensure_fields_exist_def)
  next
    case False
    with create_fields_present[OF accept Some, of env ?new] show ?thesis
      by (simp add: ensure_fields_exist_def Let_def)
  qed
  then obtain fs' where fs': "map_of (tables ?w1) t = Some fs'" "set fs \<subseteq> set fs'"
    "lower env ` fst ` set ?new \<subseteq> lower env ` set fs'"
    by blast
  have ex1: "get_existing_fields ?w1 t = fs'"
    using fs'(1) by (simp add: get_existing_fields_def dict_get_def)
  have "lower env m \<in> lower env ` set fs'" if "m \<in> fst ` set defs" for m
  proof (cases "lower env m \<in> lower env ` set fs")
    case True
    with fs'(2) show ?thesis by auto
  next
    case False
    with that ex have "m \<in> fst ` set ?new"
      by (auto simp add: select_new_fields_eq)
    with fs'(3) show ?thesis by auto
  qed
  then have "\<forall>m \<in> fst ` set defs. lower env m \<in> lower env ` set (get_existing_fields ?w1 t)"
    using ex1 by simp
  then have "select_new_fields env (get_existing_fields ?w1 t) defs [] = []"
    by (auto simp add: select_new_fields_eq filter_empty_conv)
  then show ?thesis
    by (simp add: ensure_fields_exist_def[of env svc ?w1])
qed

text \<open>
  C6. The Schema Reconciler is idempotent. A desired name that an existing field of the
  table matches up to case is never the subject of a creation request of
  \<^verbatim>\<open>ensure_fields_exist\<close>; when every desired name is matched so, the call sends nothing
  and leaves the base as it is; and against a base that accepts the fields it is asked to
  create, a second run with the same desired set changes nothing the first run left. Two
  names match up to case when \<^verbatim>\<open>str.lower\<close> gives the same string for both, which for
  names outside ASCII is what the interpreter answers.
\<close>

theorem reconcile_skips_present_fields:
  "(lower env n \<in> lower env ` set (get_existing_fields w t) \<longrightarrow>
      PostField t n \<in> set (requests (ensure_fields_exist env svc w t defs)) \<longrightarrow>
      PostField t n \<in> set (requests w))
   \<and> ((\<forall>m \<in> fst ` set defs. lower env m \<in> lower env ` set (get_existing_fields w t)) \<longrightarrow>
        ensure_fields_exist env svc w t defs = w)
   \<and> ((\<forall>w' m c'. post_field svc w' t m c' = Created) \<longrightarrow>
        ensure_fields_exist env svc (ensure_fields_exist env svc w t defs) t defs
          = ensure_fields_exist env svc w t defs)"
proof (intro conjI impI)
  let ?ex = "get_existing_fields w t"
  let ?new = "select_new_fields env ?ex defs []"
  assume held: "lower env n \<in> lower env ` set ?ex"
    and posted: "PostField t n \<in> set (requests (ensure_fields_exist env svc w t defs))"
  have "n \<notin> fst ` set ?new"
    using held by (auto simp add: select_new_fields_eq)
  moreover have "set (requests (ensure_fields_exist env svc w t defs))
      \<subseteq> set (requests w) \<union> PostField t ` fst ` set ?new"
    using create_fields_requests[of env svc w t ?new]
    by (auto simp add: ensure_fields_exist_def Let_def)
  ultimately show "PostField t n \<in> set (requests w)"
    using posted by auto
next
  assume "\<forall>m \<in> fst ` set defs. lower env m \<in> lower env ` set (get_existing_fields w t)"
  then have "select_new_fields env (get_existing_fields w t) defs [] = []"
    by (auto simp add: select_new_fields_eq filter_empty_conv)
  then show "ensure_fields_exist env svc w t defs = w"
    by (simp add: ensure_fields_exist_def)
next
  assume "\<forall>w' m c'. post_field svc w' t m c' = Created"
  then show "ensure_fields_exist env svc (ensure_fields_exist env svc w t defs) t defs
               = ensure_fields_exist env svc w t defs"
    by (intro reconcile_twice) simp
qed

theorem reconcile_skips_present_fields_witness:
  "lower demo_env ''Email'' \<in> lower demo_env ` set (get_existing_fields email_world ''Leads'')
   \<and> lower demo_env ([CHR 0xC3, CHR 0x89] @ ''TAT'')
       \<in> lower demo_env ` set (get_existing_fields email_world ''Leads'')
   \<and> ensure_fields_exist demo_env demo_services email_world ''Leads''
        [(''Email'', [(''type'', JStr ''email'')]),
         (''Name'', [(''type'', JStr ''singleLineText'')]),
         ([CHR 0xC3, CHR 0x89] @ ''TAT'', [(''type'', JStr ''singleLineText'')])]
      = email_world
   \<and> PostField ''Leads'' ([CHR 0xC3, CHR 0x89] @ ''TAT'')
       \<notin> set (requests (ensure_fields_exist demo_env demo_services email_world ''Leads''
           [(''Email'', [(''type'', JStr ''email'')]),
            ([CHR 0xC3, CHR 0x89] @ ''TAT'', [(''type'', JStr ''singleLineText'')]),
            (''Phone'', [(''type'', JStr ''phoneNumber'')])]))
   \<and> requests (ensure_fields_exist demo_env demo_services email_world ''Leads''
        [(''Email'', [(''type'', JStr ''email'')]),
         ([CHR 0xC3, CHR 0x89] @ ''TAT'', [(''type'', JStr ''singleLineText'')]),
         (''Phone'', [(''type'', JStr ''phoneNumber'')])])
      = [PostField ''Leads'' ''Phone'']
   \<and> ensure_fields_exist demo_env demo_services
        (ensure_fields_exist demo_env demo_services email_world ''Leads''
           [(''Email'', [(''type'', JStr ''email'')]),
            ([CHR 0xC3, CHR 0x89] @ ''TAT'', [(''type'', JStr ''singleLineText'')]),
            (''Phone'', [(''type'', JStr ''phoneNumber'')])])
        ''Leads''
        [(''Email'', [(''type'', JStr ''email'')]),
         ([CHR 0xC3, CHR 0x89] @ ''TAT'', [(''type'', JStr ''singleLineText'')]),
         (''Phone'', [(''type'', JStr ''phoneNumber'')])]
      = ensure_fields_exist demo_env demo_services email_world ''Leads''
          [(''Email'', [(''type'', JStr ''email'')]),
           ([CHR 0xC3, CHR 0x89] @ ''TAT'', [(''type'', JStr ''singleLineText'')]),
           (''Phone'', [(''type'', JStr ''phoneNumber'')])]"
proof -
  let ?etat = "[CHR 0xC3, CHR 0x89] @ ''TAT''"
  let ?all = "[(''Email'', [(''type'', JStr ''email'')]),
         (''Name'', [(''type'', JStr ''singleLineText'')]),
         (?etat, [(''type'', JStr ''singleLineText'')])] :: (string \<times> (int \<times> int) dict) list"
  let ?some = "[(''Email'', [(''type'', JStr ''email'')]),
         (?etat, [(''type'', JStr ''singleLineText'')]),
         (''Phone'', [(''type'', JStr ''phoneNumber'')])] :: (string \<times> (int \<times> int) dict) list"
  have ex: "get_existing_fields email_world ''Leads''
              = [''Name'', ''email'', [CHR 0xC3, CHR 0xA9] @ ''tat'']"
    by (simp add: get_existing_fields_def email_world_def dict_get_def)
  have low: "lower demo_env ''Email'' = ''email''" "lower demo_env ''Name'' = ''name''"
    "lower demo_env ''email'' = ''email''" "lower demo_env ''Phone'' = ''phone''"
    "lower demo_env ?etat = [CHR 0xC3, CHR 0xA9] @ ''tat''"
    "lower demo_env ([CHR 0xC3, CHR 0xA9] @ ''tat'') = [CHR 0xC3, CHR 0xA9] @ ''tat''"
    by (simp_all add: lower_def ascii_def lower_char_def char_of_eq_iff demo_env_def)
  have held: "lower demo_env ''Email'' \<in> lower demo_env ` set (get_existing_fields email_world ''Leads'')"
    "lower demo_env ''Name'' \<in> lower demo_env ` set (get_existing_fields email_world ''Leads'')"
    "lower demo_env ?etat \<in> lower demo_env ` set (get_existing_fields email_world ''Leads'')"
    using low by (simp_all add: ex del: append.simps)
  have none: "requests email_world = []" by (simp add: email_world_def)
  have tbl: "map_of (tables email_world) ''Leads''
               = Some [''Name'', ''email'', [CHR 0xC3, CHR 0xA9] @ ''tat'']"
    by (simp add: email_world_def)
  have phone: "requests (ensure_fields_exist demo_env demo_services email_world ''Leads'' ?some)
      = [PostField ''Leads'' ''Phone'']"
    using low[simplified]
    by (simp add: ensure_fields_exist_def ex tbl create_field_if_not_exists_def sent_def
          demo_services_def none Let_def)
  have accept: "\<forall>w' m c'. post_field demo_services w' ''Leads'' m c' = Created"
    by (simp add: demo_services_def)
  from reconcile_skips_present_fields[where n = ?etat and w = email_world and t = "''Leads''"
         and env = demo_env and svc = demo_services and defs = ?all]
       reconcile_skips_present_fields[where n = ?etat and w = email_world and t = "''Leads''"
         and env = demo_env and svc = demo_services and defs = ?some]
       held none phone accept
  show ?thesis by (simp del: append.simps)
qed

subsection \<open>Batch load: mapping onto existing fields\<close>

lemma dict_set_keys: "fst ` set (dict_set d k v) = insert k (fst ` set d)"
  by (induction d) (force split: if_splits)+

lemma dict_set_entries: "set (dict_set d k v) \<subseteq> insert (k, v) (set d)"
  by (induction d) (auto split: if_splits)

lemma dict_set_nonempty: "dict_set d k v \<noteq> []"
  by (cases d) (auto split: if_splits)

lemma field_mapping_fold_sound:
  assumes "map_of (foldl (\<lambda>m f. dict_set m (lower env f) f) init ex) l = Some f"
  shows "(f \<in> set ex \<and> lower env f = l) \<or> map_of init l = Some f"
  using assms
  by (induction ex arbitrary: init) (fastforce simp add: map_of_dict_set split: if_splits)+

lemma field_mapping_fold_complete:
  assumes "l \<in> lower env ` set ex \<or> map_of init l \<noteq> None"
  shows "map_of (foldl (\<lambda>m f. dict_set m (lower env f) f) init ex) l \<noteq> None"
  using assms
  by (induction ex arbitrary: init) (auto simp add: map_of_dict_set)

lemma field_mapping_sound:
  "map_of (field_mapping_of env ex) l = Some f \<Longrightarrow> f \<in> set ex \<and> lower env f = l"
  using field_mapping_fold_sound[where init = "[]" and ex = ex and l = l and f = f and env = env] by (simp add: field_mapping_of_def)

lemma field_mapping_complete:
  "l \<in> lower env ` set ex \<Longrightarrow> \<exists>f. map_of (field_mapping_of env ex) l = Some f"
  using field_mapping_fold_complete[where init = "[]" and ex = ex and l = l and env = env] by (auto simp add: field_mapping_of_def)

lemma map_fields_step:
  "map_fields env ex (field_mapping_of env ex) ((k, v) # items) acc =
     (if k \<in> set ex then map_fields env ex (field_mapping_of env ex) items (dict_set acc k v)
      else case map_of (field_mapping_of env ex) (lower env k) of
             Some f \<Rightarrow> map_fields env ex (field_mapping_of env ex) items (dict_set acc f v)
           | None \<Rightarrow> map_fields env ex (field_mapping_of env ex) items acc)"
  by simp

lemma map_fields_grows:
  "fst ` set acc \<subseteq> fst ` set (map_fields env ex fm items acc)"
proof (induction items arbitrary: acc)
  case Nil
  then show ?case by simp
next
  case (Cons kv items)
  obtain k v where kv: "kv = (k, v)" by (cases kv)
  show ?case
  proof (cases "k \<in> set ex")
    case True
    with Cons.IH[of "dict_set acc k v"] kv show ?thesis by (auto simp add: dict_set_keys)
  next
    case False
    show ?thesis
    proof (cases "map_of fm (lower env k)")
      case None
      with False Cons.IH[of acc] kv show ?thesis by simp
    next
      case (Some f)
      with False Cons.IH[of "dict_set acc f v"] kv show ?thesis
        by (auto simp add: dict_set_keys)
    qed
  qed
qed

lemma map_fields_entries:
  assumes "(f, v) \<in> set (map_fields env ex (field_mapping_of env ex) items acc)"
  shows "(f, v) \<in> set acc
           \<or> (f \<in> set ex \<and> (\<exists>k. (k, v) \<in> set items \<and> lower env k = lower env f))"
  using assms
proof (induction items arbitrary: acc)
  case Nil
  then show ?case by simp
next
  case (Cons kv items)
  obtain k u where kv: "kv = (k, u)" by (cases kv)
  show ?case
  proof (cases "k \<in> set ex")
    case True
    with Cons.prems kv
    have "(f, v) \<in> set (map_fields env ex (field_mapping_of env ex) items (dict_set acc k u))" by simp
    from Cons.IH[OF this] show ?thesis
    proof
      assume "(f, v) \<in> set (dict_set acc k u)"
      with dict_set_entries[of acc k u] have "(f, v) = (k, u) \<or> (f, v) \<in> set acc" by auto
      with True kv show ?thesis by auto
    next
      assume "f \<in> set ex \<and> (\<exists>k. (k, v) \<in> set items \<and> lower env k = lower env f)"
      then show ?thesis by auto
    qed
  next
    case False
    show ?thesis
    proof (cases "map_of (field_mapping_of env ex) (lower env k)")
      case None
      with False Cons.prems kv
      have "(f, v) \<in> set (map_fields env ex (field_mapping_of env ex) items acc)" by simp
      from Cons.IH[OF this] kv show ?thesis by auto
    next
      case (Some g)
      with False Cons.prems kv
      have "(f, v) \<in> set (map_fields env ex (field_mapping_of env ex) items (dict_set acc g u))" by simp
      from Cons.IH[OF this] show ?thesis
      proof
        assume "(f, v) \<in> set (dict_set acc g u)"
        with dict_set_entries[of acc g u] have "(f, v) = (g, u) \<or> (f, v) \<in> set acc" by auto
        with field_mapping_sound[OF Some] kv show ?thesis by auto
      next
        assume "f \<in> set ex \<and> (\<exists>k. (k, v) \<in> set items \<and> lower env k = lower env f)"
        then show ?thesis by auto
      qed
    qed
  qed
qed

lemma map_fields_keeps_match:
  assumes "k \<in> fst ` set items" and "lower env k \<in> lower env ` set ex"
  shows "\<exists>f \<in> fst ` set (map_fields env ex (field_mapping_of env ex) items acc).
           lower env f = lower env k"
  using assms(1)
proof (induction items arbitrary: acc)
  case Nil
  then show ?case by simp
next
  case (Cons kv items)
  obtain k' u where kv: "kv = (k', u)" by (cases kv)
  show ?case
  proof (cases "k' = k")
    case True
    show ?thesis
    proof (cases "k \<in> set ex")
      case inex: True
      from map_fields_grows[where acc = "dict_set acc k u" and ex = ex and fm = "field_mapping_of env ex"
             and items = items and env = env]
      have "k \<in> fst ` set (map_fields env ex (field_mapping_of env ex) items (dict_set acc k u))"
        by (auto simp add: dict_set_keys)
      with True inex kv show ?thesis by auto
    next
      case False
      from field_mapping_complete[OF assms(2)] obtain g where
        g: "map_of (field_mapping_of env ex) (lower env k) = Some g" by blast
      from map_fields_grows[where acc = "dict_set acc g u" and ex = ex and fm = "field_mapping_of env ex"
             and items = items and env = env]
      have "g \<in> fst ` set (map_fields env ex (field_mapping_of env ex) items (dict_set acc g u))"
        by (auto simp add: dict_set_keys)
      with True False kv g field_mapping_sound[OF g] show ?thesis by auto
    qed
  next
    case False
    with Cons.prems kv have "k \<in> fst ` set items" by auto
    from Cons.IH[OF this] kv show ?thesis
      by (auto split: option.splits)
  qed
qed

lemma map_fields_empty_iff:
  "map_fields env ex (field_mapping_of env ex) items [] = []
     \<longleftrightarrow> (\<forall>k \<in> fst ` set items. lower env k \<notin> lower env ` set ex)"
proof
  assume empty: "map_fields env ex (field_mapping_of env ex) items [] = []"
  show "\<forall>k \<in> fst ` set items. lower env k \<notin> lower env ` set ex"
  proof
    fix k assume "k \<in> fst ` set items"
    show "lower env k \<notin> lower env ` set ex"
    proof
      assume "lower env k \<in> lower env ` set ex"
      from map_fields_keeps_match[OF \<open>k \<in> fst ` set items\<close> this, where acc = "[]"] empty
      show False by simp
    qed
  qed
next
  assume none: "\<forall>k \<in> fst ` set items. lower env k \<notin> lower env ` set ex"
  show "map_fields env ex (field_mapping_of env ex) items [] = []"
  proof (rule ccontr)
    assume "map_fields env ex (field_mapping_of env ex) items [] \<noteq> []"
    then obtain f v where "(f, v) \<in> set (map_fields env ex (field_mapping_of env ex) items [])"
      by (cases "map_fields env ex (field_mapping_of env ex) items []") auto
    from map_fields_entries[OF this] obtain k where
      "f \<in> set ex" "(k, v) \<in> set items" "lower env k = lower env f" by auto
    with none show False by (metis fst_conv image_eqI)
  qed
qed

lemma build_batch_data_wrapped:
  "build_batch_data env ex fm (map (\<lambda>flds. JDict [(''fields'', JDict flds)]) recs) acc
     = Inr (acc @ map JDict (filter (\<lambda>m. m \<noteq> []) (map (\<lambda>flds. map_fields env ex fm flds []) recs)))"
  by (induction recs arbitrary: acc)
     (simp_all add: record_fields_of_def dict_has_def dict_get_def Let_def)

text \<open>
  C10. Before a batch is sent, the converted records are mapped onto the table's existing
  field names. The records sent are the mapped field sets that are not empty, in order, so
  a record none of whose keys has a destination field is left out of the insert. Every
  field sent is an existing field of the table and carries the value of a key equal to it
  up to case; every key that an existing field matches up to case is sent under an existing
  name; a key without such a field is dropped. Two names are equal up to case when
  \<^verbatim>\<open>str.lower\<close> gives the same string for both, which for names outside ASCII is what
  the interpreter answers. So fewer records can be sent than were converted, with no batch
  raising.
\<close>

theorem batch_maps_onto_existing_fields:
  "build_batch_data env ex (field_mapping_of env ex)
       (map (\<lambda>flds. JDict [(''fields'', JDict flds)]) recs) []
     = Inr (map JDict (filter (\<lambda>m. m \<noteq> [])
              (map (\<lambda>flds. map_fields env ex (field_mapping_of env ex) flds []) recs)))
   \<and> (\<forall>f v. (f, v) \<in> set (map_fields env ex (field_mapping_of env ex) flds []) \<longrightarrow>
          f \<in> set ex \<and> (\<exists>k. (k, v) \<in> set flds \<and> lower env k = lower env f))
   \<and> (\<forall>k. k \<in> fst ` set flds \<and> lower env k \<in> lower env ` set ex \<longrightarrow>
          (\<exists>f \<in> fst ` set (map_fields env ex (field_mapping_of env ex) flds []).
              lower env f = lower env k))
   \<and> (map_fields env ex (field_mapping_of env ex) flds [] = []
          \<longleftrightarrow> (\<forall>k \<in> fst ` set flds. lower env k \<notin> lower env ` set ex))
   \<and> (\<exists>ex' recs'.
          length (filter (\<lambda>m. m \<noteq> [])
                    (map (\<lambda>flds. map_fields env ex' (field_mapping_of env ex') flds []) recs'))
            < length (recs' :: 'f dict list))"
proof (intro conjI allI impI)
  show "build_batch_data env ex (field_mapping_of env ex)
       (map (\<lambda>flds. JDict [(''fields'', JDict flds)]) recs) []
     = Inr (map JDict (filter (\<lambda>m. m \<noteq> [])
              (map (\<lambda>flds. map_fields env ex (field_mapping_of env ex) flds []) recs)))"
    by (simp add: build_batch_data_wrapped)
next
  fix f v assume "(f, v) \<in> set (map_fields env ex (field_mapping_of env ex) flds [])"
  from map_fields_entries[OF this] show "f \<in> set ex" by simp
next
  fix f v assume "(f, v) \<in> set (map_fields env ex (field_mapping_of env ex) flds [])"
  from map_fields_entries[OF this]
  show "\<exists>k. (k, v) \<in> set flds \<and> lower env k = lower env f" by simp
next
  fix k assume "k \<in> fst ` set flds \<and> lower env k \<in> lower env ` set ex"
  then show "\<exists>f \<in> fst ` set (map_fields env ex (field_mapping_of env ex) flds []).
               lower env f = lower env k"
    using map_fields_keeps_match[where k = k and items = flds and ex = ex and acc = "[]" and env = env] by simp
next
  show "map_fields env ex (field_mapping_of env ex) flds [] = []
          \<longleftrightarrow> (\<forall>k \<in> fst ` set flds. lower env k \<notin> lower env ` set ex)"
    by (rule map_fields_empty_iff)
next
  have "map_fields env [] (field_mapping_of env []) [(''Other'', JNull :: 'f json)] [] = []"
    by (simp add: field_mapping_of_def)
  then have "length (filter (\<lambda>m. m \<noteq> [])
                (map (\<lambda>flds. map_fields env [] (field_mapping_of env []) flds [])
                   [[(''Other'', JNull :: 'f json)]]))
              < length [[(''Other'', JNull :: 'f json)]]"
    by simp
  then show "\<exists>ex' recs'.
          length (filter (\<lambda>m. m \<noteq> [])
                    (map (\<lambda>flds. map_fields env ex' (field_mapping_of env ex') flds []) recs'))
            < length (recs' :: 'f dict list)"
    by blast
qed


theorem batch_maps_onto_existing_fields_witness:
  "build_batch_data demo_env [''Name'', ''email'', [CHR 0xC3, CHR 0xA9] @ ''tat'']
       (field_mapping_of demo_env [''Name'', ''email'', [CHR 0xC3, CHR 0xA9] @ ''tat''])
       [JDict [(''fields'', JDict [(''Email'', JStr ''a@b.c''), (''Phone'', JStr ''1''),
                                   ([CHR 0xC3, CHR 0x89] @ ''TAT'', JStr ''ok'')])],
        JDict [(''fields'', JDict [(''Phone'', JStr ''2'')])]] []
     = Inr [JDict [(''email'', JStr ''a@b.c''),
                   ([CHR 0xC3, CHR 0xA9] @ ''tat'', JStr ''ok'') :: string \<times> (int \<times> int) json]]
   \<and> map_fields demo_env [''Name'', ''email'', [CHR 0xC3, CHR 0xA9] @ ''tat'']
        (field_mapping_of demo_env [''Name'', ''email'', [CHR 0xC3, CHR 0xA9] @ ''tat''])
        [(''Phone'', JStr ''2'') :: string \<times> (int \<times> int) json] [] = []
   \<and> lower demo_env ''Phone''
       \<notin> lower demo_env ` set [''Name'', ''email'', [CHR 0xC3, CHR 0xA9] @ ''tat'']
   \<and> batch_create_records demo_env demo_services email_world ''Leads''
        [JDict [(''fields'', JDict [(''Email'', JStr ''a@b.c''), (''Phone'', JStr ''1''),
                                    ([CHR 0xC3, CHR 0x89] @ ''TAT'', JStr ''ok'')])],
         JDict [(''fields'', JDict [(''Phone'', JStr ''2'')])]] 10
     = (Inr [JDict [(''id'', JStr ''rec''),
                    (''fields'', JDict [(''email'', JStr ''a@b.c''),
                                        ([CHR 0xC3, CHR 0xA9] @ ''tat'', JStr ''ok'')])]],
        \<lparr>tables = [(''Leads'', [''Name'', ''email'', [CHR 0xC3, CHR 0xA9] @ ''tat''])],
         requests = [PostRecords ''Leads'' 1], console = []\<rparr>)"
proof -
  let ?etat = "[CHR 0xC3, CHR 0xA9] @ ''tat''"
  let ?ETAT = "[CHR 0xC3, CHR 0x89] @ ''TAT''"
  let ?ex = "[''Name'', ''email'', ?etat]"
  let ?r1 = "[(''Email'', JStr ''a@b.c''), (''Phone'', JStr ''1''), (?ETAT, JStr ''ok'')]
               :: (int \<times> int) dict"
  let ?r2 = "[(''Phone'', JStr ''2'')] :: (int \<times> int) dict"
  have low: "lower demo_env ''Email'' = ''email''" "lower demo_env ''Name'' = ''name''"
    "lower demo_env ''email'' = ''email''" "lower demo_env ''Phone'' = ''phone''"
    "lower demo_env ?ETAT = ?etat" "lower demo_env ?etat = ?etat"
    by (simp_all add: lower_def ascii_def lower_char_def char_of_eq_iff demo_env_def)
  have fm: "field_mapping_of demo_env ?ex
              = [(''name'', ''Name''), (''email'', ''email''), (?etat, ?etat)]"
    using low[simplified] by (simp add: field_mapping_of_def)
  have m1: "map_fields demo_env ?ex (field_mapping_of demo_env ?ex) ?r1 []
              = [(''email'', JStr ''a@b.c''), (?etat, JStr ''ok'')]"
    and m2: "map_fields demo_env ?ex (field_mapping_of demo_env ?ex) ?r2 [] = []"
    using low[simplified] by (simp_all add: fm[simplified])
  have phone: "lower demo_env ''Phone'' \<notin> lower demo_env ` set ?ex"
    using low[simplified] by simp
  have bd: "build_batch_data demo_env ?ex (field_mapping_of demo_env ?ex)
              [JDict [(''fields'', JDict ?r1)], JDict [(''fields'', JDict ?r2)]] []
            = Inr [JDict [(''email'', JStr ''a@b.c''), (?etat, JStr ''ok'')]]"
  proof -
    from batch_maps_onto_existing_fields[where env = demo_env and ex = ?ex
           and recs = "[?r1, ?r2]" and flds = ?r2]
    have "build_batch_data demo_env ?ex (field_mapping_of demo_env ?ex)
            (map (\<lambda>flds. JDict [(''fields'', JDict flds)]) [?r1, ?r2]) []
          = Inr (map JDict (filter (\<lambda>m. m \<noteq> [])
              (map (\<lambda>flds. map_fields demo_env ?ex (field_mapping_of demo_env ?ex) flds [])
                 [?r1, ?r2])))"
      by (rule conjunct1)
    then show ?thesis
      by (simp only: list.map m1 m2 filter.simps) simp
  qed
  have ex: "get_existing_fields email_world ''Leads'' = ?ex"
    by (simp add: get_existing_fields_def email_world_def dict_get_def)
  have tbl: "create_or_get_table demo_services email_world ''Leads'' = email_world"
    by (simp add: create_or_get_table_def table_exists_def email_world_def)
  have "batches 10 [JDict [(''fields'', JDict ?r1)], JDict [(''fields'', JDict ?r2)]]
          = [[JDict [(''fields'', JDict ?r1)], JDict [(''fields'', JDict ?r2)]]]"
    by (simp add: batches.simps)
  with bd ex tbl have "batch_create_records demo_env demo_services email_world ''Leads''
        [JDict [(''fields'', JDict ?r1)], JDict [(''fields'', JDict ?r2)]] 10
     = (Inr [JDict [(''id'', JStr ''rec''),
                    (''fields'', JDict [(''email'', JStr ''a@b.c''), (?etat, JStr ''ok'')])]],
        \<lparr>tables = [(''Leads'', ?ex)], requests = [PostRecords ''Leads'' 1], console = []\<rparr>)"
    by (simp add: batch_create_records_def demo_services_def sent_def email_world_def)
  with bd m1 m2 phone show ?thesis by simp
qed

subsection \<open>Batch load: a failing batch\<close>

lemma insert_batches_append:
  "insert_batches env svc w t ex fm (xs @ ys) c =
     (case insert_batches env svc w t ex fm xs c of
        (c1, w1) \<Rightarrow> insert_batches env svc w1 t ex fm ys c1)"
  by (induction xs arbitrary: w c) (auto simp add: Let_def split: sum.splits)

lemma insert_batches_prefix:
  "\<exists>rs. fst (insert_batches env svc w t ex fm bs c) = c @ rs"
proof (induction bs arbitrary: w c)
  case Nil
  then show ?case by simp
next
  case (Cons b bs)
  show ?case
  proof (cases "build_batch_data env ex fm b []")
    case (Inl e)
    with Cons.IH[of "printed (ErrorCreatingBatch e) w" c] show ?thesis by simp
  next
    case (Inr bd)
    show ?thesis
    proof (cases "bd = []")
      case True
      with Inr Cons.IH[of w c] show ?thesis by simp
    next
      case False
      let ?w' = "sent (PostRecords t (length bd)) w"
      show ?thesis
      proof (cases "batch_create svc w t bd")
        case (Inl e)
        with Inr False Cons.IH[of "printed (ErrorCreatingBatch e) ?w'" c] show ?thesis
          by (simp add: Let_def)
      next
        case res: (Inr result)
        from Cons.IH[of ?w' "c @ result"] obtain rs where
          "fst (insert_batches env svc ?w' t ex fm bs (c @ result)) = (c @ result) @ rs" by blast
        with Inr False res show ?thesis by (simp add: Let_def)
      qed
    qed
  qed
qed

lemma insert_batches_console:
  "\<exists>ms. console (snd (insert_batches env svc w t ex fm bs c)) = console w @ ms"
proof (induction bs arbitrary: w c)
  case Nil
  then show ?case by simp
next
  case (Cons b bs)
  show ?case
  proof (cases "build_batch_data env ex fm b []")
    case (Inl e)
    from Cons.IH[of "printed (ErrorCreatingBatch e) w" c] obtain ms where
      "console (snd (insert_batches env svc (printed (ErrorCreatingBatch e) w) t ex fm bs c))
         = console (printed (ErrorCreatingBatch e) w) @ ms" by blast
    with Inl show ?thesis by (simp add: printed_def)
  next
    case (Inr bd)
    show ?thesis
    proof (cases "bd = []")
      case True
      with Inr Cons.IH[of w c] show ?thesis by simp
    next
      case False
      let ?w' = "sent (PostRecords t (length bd)) w"
      show ?thesis
      proof (cases "batch_create svc w t bd")
        case (Inl e)
        from Cons.IH[of "printed (ErrorCreatingBatch e) ?w'" c] obtain ms where
          "console (snd (insert_batches env svc (printed (ErrorCreatingBatch e) ?w') t ex fm bs c))
             = console (printed (ErrorCreatingBatch e) ?w') @ ms" by blast
        with Inr False Inl show ?thesis by (simp add: Let_def printed_def sent_def)
      next
        case res: (Inr result)
        from Cons.IH[of ?w' "c @ result"] obtain ms where
          "console (snd (insert_batches env svc ?w' t ex fm bs (c @ result)))
             = console ?w' @ ms" by blast
        with Inr False res show ?thesis by (simp add: Let_def sent_def)
      qed
    qed
  qed
qed

text \<open>
  C7. Let a module be synced whose table exists, whose field map is built and whose records
  are fetched and converted. If, among the batches of ten, one batch's insert raises in the
  state the earlier batches have left, the failure is logged: the line
  \<^verbatim>\<open>Error creating batch\<close> with the exception raised is printed next after what the
  console held when the batch was sent. The loop goes on with the next batch, keeps every
  record created before and adds those created after, and \<^verbatim>\<open>sync_module_recursive\<close>
  returns the number of records created by the other batches and marks the module synced:
  it neither raises nor falls back to zero.
\<close>

theorem failed_batch_is_dropped_alone:
  assumes fresh: "m \<notin> synced"
      and table: "table_exists w m"
      and ftm: "build_field_type_map env (get_module_fields svc w m) [] = Inr ftm"
      and recs: "get_all_records svc w m = Inr zoho_records" "zoho_records \<noteq> []"
      and conv: "convert_zoho_to_airtable env zoho_records ftm (Some m) = Inr airtable_records"
      and w3: "w3 = (if ftm \<noteq> [] then ensure_fields_exist env svc (sent (FetchRecords m) w) m ftm
                     else sent (FetchRecords m) w)"
      and w4: "w4 = (if clear then clear_table svc w3 m else w3)"
      and ex: "ex = get_existing_fields w4 m"
      and split: "batches 10 airtable_records = pre @ bad # post"
      and pre: "insert_batches env svc (create_or_get_table svc w4 m) m ex
                  (field_mapping_of env ex) pre [] = (c1, w5)"
      and bad: "build_batch_data env ex (field_mapping_of env ex) bad [] = Inr bd" "bd \<noteq> []"
               "batch_create svc w5 m bd = Inl e"
      and post: "insert_batches env svc
                   (printed (ErrorCreatingBatch e) (sent (PostRecords m (length bd)) w5))
                   m ex (field_mapping_of env ex) post c1 = (c2, w6)"
  shows "sync_module_recursive env svc w m clear synced = (length c2, insert m synced, w6)
         \<and> (\<exists>later. c2 = c1 @ later)
         \<and> (\<exists>later. console w6 = console w5 @ ErrorCreatingBatch e # later)"
proof -
  have nonempty: "airtable_records \<noteq> []"
    using split by (auto simp add: batches.simps[of 10 airtable_records])
  have loop: "insert_batches env svc (create_or_get_table svc w4 m) m ex (field_mapping_of env ex)
                (batches 10 airtable_records) [] = (c2, w6)"
    using pre bad post by (simp add: split insert_batches_append Let_def)
  have load: "batch_create_records env svc w4 m airtable_records 10 = (Inr c2, w6)"
    using nonempty loop ex by (simp add: batch_create_records_def Let_def)
  have "sync_module_recursive env svc w m clear synced = (length c2, insert m synced, w6)"
    using fresh table ftm recs conv load[unfolded w4 w3]
    by (cases clear; cases "ftm = []") (simp_all add: sync_module_recursive_def Let_def)
  moreover from insert_batches_prefix[where env = env and svc = svc and t = m and ex = ex
      and w = "printed (ErrorCreatingBatch e) (sent (PostRecords m (length bd)) w5)"
      and fm = "field_mapping_of env ex" and bs = post and c = c1] post
  have "\<exists>later. c2 = c1 @ later" by simp
  moreover from insert_batches_console[where env = env and svc = svc and t = m and ex = ex
      and w = "printed (ErrorCreatingBatch e) (sent (PostRecords m (length bd)) w5)"
      and fm = "field_mapping_of env ex" and bs = post and c = c1] post
  have "\<exists>later. console w6 = console w5 @ ErrorCreatingBatch e # later"
    by (simp add: printed_def sent_def)
  ultimately show ?thesis by simp
qed

theorem failed_batch_is_dropped_alone_witness:
  "sync_module_recursive demo_env demo_services demo_world ''Deals'' False {}
     = (1, {''Deals''},
        \<lparr>tables = [(''Leads'', [''Name'']), (''Deals'', [''Name''])],
         requests = [FetchRecords ''Deals'', PostRecords ''Deals'' 10, PostRecords ''Deals'' 1],
         console = [ErrorCreatingBatch APIError]\<rparr>)
   \<and> ''Deals'' \<notin> ({} :: string set) \<and> table_exists demo_world ''Deals''"
proof -
  let ?names1 = "[''a'', ''b'', ''c'', ''d'', ''e'', ''f'', ''g'', ''h'', ''i'', ''j'']"
  let ?wrap = "\<lambda>n. JDict [(''fields'', JDict [(''Name'', JStr n)])] :: (int \<times> int) json"
  let ?arecs = "map ?wrap (?names1 @ [''k''])"
  let ?w4 = "sent (FetchRecords ''Deals'') demo_world"
  let ?bd = "map (\<lambda>n. JDict [(''Name'', JStr n)] :: (int \<times> int) json) ?names1"
  let ?w5 = "sent (PostRecords ''Deals'' 10) ?w4"
  let ?c2 = "[JDict [(''id'', JStr ''rec''), (''fields'', JDict [(''Name'', JStr ''k'')])]]
               :: (int \<times> int) json list"
  let ?w6 = "sent (PostRecords ''Deals'' 1) (printed (ErrorCreatingBatch APIError) ?w5)"
  have fresh: "''Deals'' \<notin> ({} :: string set)" by simp
  have table: "table_exists demo_world ''Deals''"
    by (simp add: table_exists_def demo_world_def)
  have ftm: "build_field_type_map demo_env (get_module_fields demo_services demo_world ''Deals'') []
               = Inr []"
    by (simp add: demo_services_def)
  have recs: "get_all_records demo_services demo_world ''Deals'' = Inr (demo_records ''Deals'')"
    "demo_records ''Deals'' \<noteq> []"
    by (simp_all add: demo_services_def demo_records_def)
  have conv: "convert_zoho_to_airtable demo_env (demo_records ''Deals'') [] (Some ''Deals'')
                = Inr ?arecs"
    by (simp add: eval_defs demo_records_def)
  have w3: "?w4 = (if ([] :: (string \<times> (int \<times> int) dict) list) \<noteq> []
                   then ensure_fields_exist demo_env demo_services (sent (FetchRecords ''Deals'') demo_world)
                          ''Deals'' []
                   else sent (FetchRecords ''Deals'') demo_world)"
    by simp
  have w4: "?w4 = (if False then clear_table demo_services ?w4 ''Deals'' else ?w4)" by simp
  have ex: "[''Name''] = get_existing_fields ?w4 ''Deals''"
    by (simp add: get_existing_fields_def sent_def demo_world_def dict_get_def)
  have fm: "field_mapping_of demo_env [''Name''] = [(''name'', ''Name'')]"
    by (simp add: field_mapping_of_def lower_def ascii_def lower_char_def char_of_eq_iff)
  have split: "batches 10 ?arecs = [] @ map ?wrap ?names1 # [[?wrap ''k'']]"
    by (simp add: batches.simps)
  have table4: "create_or_get_table demo_services ?w4 ''Deals'' = ?w4"
    by (simp add: create_or_get_table_def table_exists_def sent_def demo_world_def)
  have pre: "insert_batches demo_env demo_services (create_or_get_table demo_services ?w4 ''Deals'')
               ''Deals'' [''Name''] (field_mapping_of demo_env [''Name'']) [] [] = ([], ?w4)"
    by (simp add: table4)
  have bad: "build_batch_data demo_env [''Name''] (field_mapping_of demo_env [''Name'']) (map ?wrap ?names1) []
               = Inr ?bd"
    "?bd \<noteq> []" "batch_create demo_services ?w4 ''Deals'' ?bd = Inl APIError"
    by (simp_all add: fm record_fields_of_def dict_has_def dict_get_def demo_services_def)
  have post: "insert_batches demo_env demo_services
                (printed (ErrorCreatingBatch APIError)
                   (sent (PostRecords ''Deals'' (length ?bd)) ?w4))
                ''Deals'' [''Name''] (field_mapping_of demo_env [''Name'']) [[?wrap ''k'']] []
              = (?c2, ?w6)"
    by (simp add: fm record_fields_of_def dict_has_def dict_get_def demo_services_def
          eval_nat_numeral)
  from failed_batch_is_dropped_alone[OF fresh table ftm recs conv w3 w4 ex split pre bad post]
  have "sync_module_recursive demo_env demo_services demo_world ''Deals'' False {}
          = (length ?c2, insert ''Deals'' {}, ?w6)"
    by simp
  with fresh table show ?thesis
    by (simp add: sent_def printed_def demo_world_def)
qed

subsection \<open>The visited set and the run of \<^verbatim>\<open>main\<close>\<close>

lemma fetches_sent:
  "fetches (sent r w) = fetches w @ (case r of FetchRecords m \<Rightarrow> [m] | _ \<Rightarrow> [])"
  by (simp add: fetches_def sent_def)

lemma fetches_printed [simp]: "fetches (printed msg w) = fetches w"
  by (simp add: fetches_def printed_def)

lemma fetches_tables [simp]: "fetches (w\<lparr>tables := ts\<rparr>) = fetches w"
  by (simp add: fetches_def)

lemma fetches_create_table [simp]: "fetches (snd (create_table svc w t)) = fetches w"
  by (simp add: create_table_def Let_def fetches_sent)

lemma fetches_create_or_get_table [simp]: "fetches (create_or_get_table svc w t) = fetches w"
  by (simp add: create_or_get_table_def)

lemma fetches_clear_table [simp]: "fetches (clear_table svc w t) = fetches w"
  by (simp add: clear_table_def fetches_sent)

lemma fetches_create_field [simp]:
  "fetches (snd (create_field_if_not_exists env svc w t n c)) = fetches w"
  by (simp add: create_field_if_not_exists_def Let_def fetches_sent
      split: option.splits post_answer.splits)

lemma fetches_create_fields [simp]: "fetches (create_fields env svc w t cs) = fetches w"
  by (induction cs arbitrary: w) auto

lemma fetches_ensure_fields_exist [simp]: "fetches (ensure_fields_exist env svc w t defs) = fetches w"
  by (simp add: ensure_fields_exist_def Let_def)

lemma fetches_insert_batches [simp]:
  "fetches (snd (insert_batches env svc w t ex fm bs c)) = fetches w"
  by (induction bs arbitrary: w c) (auto simp add: Let_def fetches_sent split: sum.splits)

lemma fetches_batch_create_records [simp]:
  "fetches (snd (batch_create_records env svc w t records n)) = fetches w"
  by (simp add: batch_create_records_def Let_def split: prod.splits)
     (metis fetches_create_or_get_table fetches_insert_batches snd_conv)

lemma sync_module_fetches_once:
  assumes "\<forall>w'. post_table svc w' m
             \<and> (\<exists>ftm. build_field_type_map env (get_module_fields svc w' m) [] = Inr ftm)"
  shows "fetches (snd (sync_module env svc w m clear)) = fetches w @ [m]"
proof -
  obtain w1 where
    start: "(if \<not> table_exists w m then create_table svc w m else (True, w)) = (True, w1)"
    and w1: "fetches w1 = fetches w"
  proof (cases "table_exists w m")
    case True
    then show ?thesis by (intro that[of w]) simp_all
  next
    case False
    have "create_table svc w m = (True, snd (create_table svc w m))"
      using assms by (simp add: create_table_def Let_def)
    with False show ?thesis
      by (intro that[of "snd (create_table svc w m)"]) simp_all
  qed
  from assms obtain ftm where
    ftm: "build_field_type_map env (get_module_fields svc w1 m) [] = Inr ftm" by blast
  let ?w2 = "sent (FetchRecords m) w1"
  have w2: "fetches ?w2 = fetches w @ [m]"
    using w1 by (simp add: fetches_sent)
  let ?w3 = "if ftm \<noteq> [] then ensure_fields_exist env svc ?w2 m ftm else ?w2"
  let ?w4 = "if clear then clear_table svc ?w3 m else ?w3"
  have w4: "fetches ?w4 = fetches w @ [m]"
    using w2 by simp
  have unfold: "sync_module_recursive env svc w m clear {} =
     (case get_all_records svc w1 m of
        Inl e \<Rightarrow> (0, {}, ?w2)
      | Inr zoho_records \<Rightarrow>
          if zoho_records = [] then (0, {m}, ?w2)
          else
            (case convert_zoho_to_airtable env zoho_records ftm (Some m) of
               Inl e \<Rightarrow> (0, {}, ?w2)
             | Inr airtable_records \<Rightarrow>
                 (case batch_create_records env svc ?w4 m airtable_records 10 of
                    (Inl e, w5) \<Rightarrow> (0, {}, w5)
                  | (Inr created, w5) \<Rightarrow> (length created, {m}, w5))))"
    unfolding sync_module_recursive_def Let_def by (simp add: start ftm)
  have "\<exists>n s w'. sync_module_recursive env svc w m clear {} = (n, s, w')
          \<and> fetches w' = fetches w @ [m]"
  proof (cases "get_all_records svc w1 m")
    case (Inl e)
    with w2 show ?thesis by (simp add: unfold)
  next
    case (Inr zoho_records)
    show ?thesis
    proof (cases "zoho_records = []")
      case True
      with Inr w2 show ?thesis by (simp add: unfold)
    next
      case False
      show ?thesis
      proof (cases "convert_zoho_to_airtable env zoho_records ftm (Some m)")
        case (Inl e)
        with Inr False w2 show ?thesis by (simp add: unfold)
      next
        case conv: (Inr airtable_records)
        obtain res w5 where load:
          "batch_create_records env svc ?w4 m airtable_records 10 = (res, w5)"
          by (cases "batch_create_records env svc ?w4 m airtable_records 10")
        from fetches_batch_create_records[where env = env and svc = svc and w = ?w4 and t = m
               and records = airtable_records and n = 10] load w4
        have w5: "fetches w5 = fetches w @ [m]" by simp
        from Inr False conv load w5 show ?thesis
          by (cases res) (simp_all add: unfold)
      qed
    qed
  qed
  then show ?thesis
    by (auto simp add: sync_module_def)
qed

lemma sync_each_fetches:
  assumes "\<forall>m \<in> set ms. \<forall>w'. post_table svc w' m
             \<and> (\<exists>ftm. build_field_type_map env (get_module_fields svc w' m) [] = Inr ftm)"
  shows "fetches (snd (sync_each env svc clear ms w tot)) = fetches w @ ms"
  using assms
proof (induction ms arbitrary: w tot)
  case Nil
  then show ?case by simp
next
  case (Cons m ms)
  obtain n w' where step: "sync_module env svc w m clear = (n, w')"
    by (cases "sync_module env svc w m clear")
  from Cons.prems have "\<forall>w'. post_table svc w' m
             \<and> (\<exists>ftm. build_field_type_map env (get_module_fields svc w' m) [] = Inr ftm)"
    by simp
  from sync_module_fetches_once[OF this, where w = w and clear = clear] step
  have "fetches w' = fetches w @ [m]" by simp
  moreover from Cons.prems
  have "fetches (snd (sync_each env svc clear ms w' (tot + n))) = fetches w' @ ms"
    by (intro Cons.IH) simp
  ultimately show ?case using step by simp
qed

text \<open>
  C9, as the claim states it, fails: \<^verbatim>\<open>sync_module\<close> starts every call with an empty
  visited set, so nothing remembers a module from one round of the loop of \<^verbatim>\<open>main\<close> to
  the next. With the modules Leads and Deals offered and the answers \<^verbatim>\<open>2\<close> and
  \<^verbatim>\<open>1,1\<close>, the records of Leads are fetched, converted and loaded twice.
\<close>

theorem repeated_selection_counterexample:
  "main_sync demo_env demo_services demo_world [''Leads'', ''Deals''] ''2'' ''1,1'' False
     = (2, \<lparr>tables = [(''Leads'', [''Name'']), (''Deals'', [''Name''])],
            requests = [FetchRecords ''Leads'', PostRecords ''Leads'' 1,
                        FetchRecords ''Leads'', PostRecords ''Leads'' 1],
            console = []\<rparr>)"
proof -
  have sel: "select_modules demo_env [''Leads'', ''Deals''] ''2'' ''1,1'' = [''Leads'', ''Leads'']"
    by (simp add: select_modules_def strip_def is_space_def py_int_def int_ascii_def trim_def
          is_blank_def ascii_def is_digit_def digit_val_def)
  have fm: "field_mapping_of demo_env [''Name''] = [(''name'', ''Name'')]"
    by (simp add: field_mapping_of_def lower_def ascii_def lower_char_def char_of_eq_iff)
  have one: "sync_module demo_env demo_services
               \<lparr>tables = [(''Leads'', [''Name'']), (''Deals'', [''Name''])], requests = rs,
                console = []\<rparr>
               ''Leads'' False
             = (1, \<lparr>tables = [(''Leads'', [''Name'']), (''Deals'', [''Name''])],
                    requests = rs @ [FetchRecords ''Leads'', PostRecords ''Leads'' 1],
                    console = []\<rparr>)" for rs
    by (simp add: sync_module_def sync_module_recursive_def table_exists_def demo_services_def
          demo_records_def eval_defs sent_def batch_create_records_def get_existing_fields_def
          create_or_get_table_def batches.simps fm record_fields_of_def)
  show ?thesis
    by (simp add: main_sync_def sel demo_world_def one)
qed

text \<open>
  C9, amended. A module found in the visited set is skipped: \<^verbatim>\<open>sync_module_recursive\<close>
  returns 0 and touches nothing. But the visited set lives for one call of
  \<^verbatim>\<open>sync_module\<close> only, so one run of \<^verbatim>\<open>main\<close> syncs a module once for each time it
  stands in the selected list: where the base accepts new tables and the field descriptors
  of the selected modules are well formed, the modules whose records are fetched during the
  run are the selected list itself, in order and with its repetitions.
\<close>

theorem synced_once_per_selection:
  "(m \<in> synced \<longrightarrow> sync_module_recursive env svc w m clear synced = (0, synced, w))
   \<and> ((\<forall>m' \<in> set (select_modules env modules choice line). \<forall>w'.
          post_table svc w' m'
          \<and> (\<exists>ftm. build_field_type_map env (get_module_fields svc w' m') [] = Inr ftm)) \<longrightarrow>
        fetches (snd (main_sync env svc w modules choice line clear))
          = fetches w @ select_modules env modules choice line)"
  using sync_each_fetches[where ms = "select_modules env modules choice line" and svc = svc
      and env = env and clear = clear and w = w and tot = 0]
  by (simp add: sync_module_recursive_def main_sync_def)

theorem synced_once_per_selection_witness:
  "''Leads'' \<in> {''Leads''}
   \<and> sync_module_recursive demo_env demo_services demo_world ''Leads'' False {''Leads''}
       = (0, {''Leads''}, demo_world)
   \<and> select_modules demo_env [''Leads'', ''Deals''] ''2'' ''1,1'' = [''Leads'', ''Leads'']
   \<and> fetches (snd (main_sync demo_env demo_services demo_world [''Leads'', ''Deals''] ''2''
                     ''1,1'' False))
       = [''Leads'', ''Leads'']"
proof -
  have sel: "select_modules demo_env [''Leads'', ''Deals''] ''2'' ''1,1'' = [''Leads'', ''Leads'']"
    by (simp add: select_modules_def strip_def is_space_def py_int_def int_ascii_def trim_def
          is_blank_def ascii_def is_digit_def digit_val_def)
  have ok: "\<forall>m' \<in> set (select_modules demo_env [''Leads'', ''Deals''] ''2'' ''1,1''). \<forall>w'.
          post_table demo_services w' m'
          \<and> (\<exists>ftm. build_field_type_map demo_env (get_module_fields demo_services w' m') []
                     = Inr ftm)"
    by (simp add: demo_services_def)
  have none: "fetches demo_world = []"
    by (simp add: fetches_def demo_world_def)
  from synced_once_per_selection[where m = "''Leads''" and synced = "{''Leads''}"
         and env = demo_env and svc = demo_services and w = demo_world and clear = False
         and modules = "[''Leads'', ''Deals'']" and choice = "''2''" and line = "''1,1''"]
       ok sel none
  show ?thesis by simp
qed

subsection \<open>Value Converter: what holds on well-shaped records\<close>

text \<open>
  The failures shown for C1 and C4 are the only ones. On records whose values are well shaped
  (\<open>well_shaped\<close>) the conversion returns, and every value it stores is a string or a
  number; and in any case a stored key is the cleaned name of a field whose value is not
  null.
\<close>

lemma names_of_named:
  "list_all named_object xs \<Longrightarrow> \<exists>ss. names_of env xs = Inr (map JStr ss)"
proof (induction xs)
  case Nil
  then show ?case by simp
next
  case (Cons x xs)
  then obtain ss where ss: "names_of env xs = Inr (map JStr ss)" by auto
  from Cons.prems obtain d where d: "x = JDict d"
    by (cases x) (auto simp add: named_object_def)
  from Cons.prems d obtain s where "dict_get d ''name'' (JStr (py_str env x)) = JStr s"
    by (auto simp add: named_object_def dict_get_def split: option.splits json.splits)
  with ss d have "names_of env (x # xs) = Inr (map JStr (s # ss))" by simp
  then show ?case by blast
qed

lemma strings_of_strings: "strings_of (map JStr ss) = Inr ss"
  by (induction ss) auto

lemma convert_field_well_shaped:
  assumes "well_shaped val"
  shows "\<exists>r. convert_field env ftm bl key val = Inr r \<and> (\<forall>k v. r = Some (k, v) \<longrightarrow> scalar v)"
proof (cases val)
  case (JList xs)
  show ?thesis
  proof (cases xs)
    case Nil
    with JList show ?thesis by (simp add: convert_field_def Let_def)
  next
    case (Cons x xs')
    show ?thesis
    proof (cases "\<exists>d. x = JDict d")
      case True
      with assms JList Cons have "list_all named_object xs"
        by (auto simp add: well_shaped_def)
      from names_of_named[OF this, of env] obtain ss where
        "names_of env xs = Inr (map JStr ss)" by blast
      with True JList Cons show ?thesis
        by (auto simp add: convert_field_def Let_def strings_of_strings scalar_def)
    next
      case False
      with JList Cons show ?thesis
        by (cases x) (auto simp add: convert_field_def Let_def scalar_def)
    qed
  qed
next
  case (JDict d)
  with assms show ?thesis
    by (auto simp add: convert_field_def Let_def well_shaped_def dict_has_def dict_get_def
          scalar_def split: option.splits)
qed (auto simp add: convert_field_def Let_def scalar_def split: option.splits)

lemma convert_field_nonnull:
  "convert_field env ftm bl key val = Inr (Some (k, v)) \<Longrightarrow> val \<noteq> JNull"
  by (auto simp add: convert_field_def Let_def split: if_splits)

lemma dict_set_all:
  "list_all P d \<Longrightarrow> P (k, v) \<Longrightarrow> list_all P (dict_set d k v)"
  by (induction d) auto

lemma convert_items_well_shaped:
  assumes "list_all (\<lambda>kv. well_shaped (snd kv)) items"
      and "list_all (\<lambda>kv. scalar (snd kv)) flds"
  shows "\<exists>out. convert_items env ftm bl items flds = Inr out
               \<and> list_all (\<lambda>kv. scalar (snd kv)) out"
  using assms
proof (induction items arbitrary: flds)
  case Nil
  then show ?case by simp
next
  case (Cons kv items)
  obtain key val where kv: "kv = (key, val)" by (cases kv)
  with Cons.prems have "well_shaped val" by simp
  from convert_field_well_shaped[OF this, of env ftm bl key] obtain r where
    r: "convert_field env ftm bl key val = Inr r" "\<forall>k v. r = Some (k, v) \<longrightarrow> scalar v"
    by blast
  show ?case
  proof (cases r)
    case None
    with r kv Cons show ?thesis by simp
  next
    case (Some p)
    obtain k v where p: "p = (k, v)" by (cases p)
    with r Some have "scalar v" by simp
    with Cons.prems have "list_all (\<lambda>kv. scalar (snd kv)) (dict_set flds k v)"
      by (intro dict_set_all) simp_all
    with Cons.IH[of "dict_set flds k v"] Cons.prems r Some p kv show ?thesis by simp
  qed
qed

lemma convert_items_keys:
  assumes "convert_items env ftm bl items flds = Inr out" and "k \<in> fst ` set out"
  shows "k \<in> fst ` set flds
         \<or> (\<exists>key val. (key, val) \<in> set items \<and> val \<noteq> JNull \<and> k = clean_name key)"
  using assms
proof (induction items arbitrary: flds)
  case Nil
  then show ?case by simp
next
  case (Cons kv items)
  obtain key val where kv: "kv = (key, val)" by (cases kv)
  show ?case
  proof (cases "convert_field env ftm bl key val")
    case (Inl e)
    with Cons.prems kv show ?thesis by simp
  next
    case (Inr r)
    show ?thesis
    proof (cases r)
      case None
      with Inr kv Cons.prems have "convert_items env ftm bl items flds = Inr out" by simp
      from Cons.IH[OF this Cons.prems(2)] show ?thesis by auto
    next
      case (Some p)
      obtain k' v where p: "p = (k', v)" by (cases p)
      from Inr Some p have emitted: "k' = clean_name key" "val \<noteq> JNull"
        by (auto dest: convert_field_key convert_field_nonnull)
      from Inr Some p kv Cons.prems
      have "convert_items env ftm bl items (dict_set flds k' v) = Inr out" by simp
      from Cons.IH[OF this Cons.prems(2)] emitted kv show ?thesis
        by (auto simp add: dict_set_keys)
    qed
  qed
qed

lemma convert_records_well_shaped:
  assumes "list_all (\<lambda>r. \<exists>items. r = JDict items
                           \<and> list_all (\<lambda>kv. well_shaped (snd kv)) items) recs"
  shows "\<exists>out. convert_records env ftm bl recs acc = Inr (acc @ out)
               \<and> list_all (\<lambda>r. \<exists>flds. r = JDict [(''fields'', JDict flds)]
                                       \<and> list_all (\<lambda>kv. scalar (snd kv)) flds) out"
  using assms
proof (induction recs arbitrary: acc)
  case Nil
  then show ?case by simp
next
  case (Cons r recs)
  from Cons.prems obtain items where
    items: "r = JDict items" "list_all (\<lambda>kv. well_shaped (snd kv)) items" by auto
  from convert_items_well_shaped[OF items(2), of "[]" env ftm bl] obtain flds where
    flds: "convert_items env ftm bl items [] = Inr flds" "list_all (\<lambda>kv. scalar (snd kv)) flds"
    by auto
  from Cons.prems have "list_all (\<lambda>r. \<exists>items. r = JDict items
                           \<and> list_all (\<lambda>kv. well_shaped (snd kv)) items) recs"
    by simp
  from Cons.IH[OF this, of "acc @ [JDict [(''fields'', JDict flds)]]"] obtain out where
    "convert_records env ftm bl recs (acc @ [JDict [(''fields'', JDict flds)]])
       = Inr ((acc @ [JDict [(''fields'', JDict flds)]]) @ out)"
    "list_all (\<lambda>r. \<exists>flds. r = JDict [(''fields'', JDict flds)]
                            \<and> list_all (\<lambda>kv. scalar (snd kv)) flds) out"
    by blast
  with items flds show ?case
    by (intro exI[of _ "JDict [(''fields'', JDict flds)] # out"]) simp
qed

lemma convert_well_shaped_returns_scalars:
  assumes "list_all (\<lambda>r. \<exists>items. r = JDict items
                           \<and> list_all (\<lambda>kv. well_shaped (snd kv)) items) zoho_records"
  shows "\<exists>out. convert_zoho_to_airtable env zoho_records ftm module_name = Inr out
               \<and> list_all (\<lambda>r. \<exists>flds. r = JDict [(''fields'', JDict flds)]
                                       \<and> list_all (\<lambda>kv. scalar (snd kv)) flds) out"
  using convert_records_well_shaped[OF assms, of env ftm "blacklisted_fields module_name" "[]"]
  by (simp add: convert_zoho_to_airtable_def)

end
